theory Spec2Isabelle
  imports Main "HOL-Library.Word" "HOL-Library.Multiset" "HOL-Library.Sublist"
    "HOL-Library.List_Lexorder" "HOL-Library.Char_ord"
begin

section \<open>EatWise client and schema: a shallow embedding\<close>

text \<open>
  The development follows the TypeScript screens (\<^verbatim>\<open>app/(tabs)/wellness.tsx\<close>,
  \<^verbatim>\<open>app/(tabs)/pair.tsx\<close>) and the SQL migration \<^verbatim>\<open>V2__create_tables.sql\<close>.
  Several revisions of each file are part of the sources; where they differ, each
  revision gets its own definition.
\<close>

subsection \<open>The filter sent to the API\<close>

text \<open>
  \<^verbatim>\<open>type Filter = 'all' | 'avoid' | 'benefit'\<close> and
  \<^verbatim>\<open>type ApiFilter = 'all' | 'avoid' | 'beneficial'\<close> are unions of string literals:
  at run time a filter is a string, and the state \<^verbatim>\<open>Filter | null\<close> is an optional
  string.
  \<^verbatim>\<open>
  const apiFilter = (f: Filter | null): ApiFilter =>
    f === 'benefit' ? 'beneficial' : (f ?? 'all');
  \<close>
\<close>

definition apiFilter :: "string option \<Rightarrow> string" where
  "apiFilter f =
     (if f = Some ''benefit'' then ''beneficial''
      else (case f of None \<Rightarrow> ''all'' | Some s \<Rightarrow> s))"

text \<open>
  The step-by-step revision of the pairing screen computes the same value with \<^verbatim>\<open>||\<close>:
  \<^verbatim>\<open>filter === 'benefit' ? 'beneficial' : filter || 'all'\<close>; the empty string is falsy.
\<close>

definition apiFilter_memo :: "string option \<Rightarrow> string" where
  "apiFilter_memo f =
     (if f = Some ''benefit'' then ''beneficial''
      else (case f of None \<Rightarrow> ''all'' | Some s \<Rightarrow> if s = [] then ''all'' else s))"

text \<open>The values of the type \<^verbatim>\<open>Filter | null\<close>.\<close>

definition filter_states :: "string option list" where
  "filter_states = [Some ''all'', Some ''avoid'', Some ''benefit'', None]"

text \<open>The closed enumeration of the API.\<close>

definition api_filters :: "string list" where
  "api_filters = [''all'', ''avoid'', ''beneficial'']"

datatype engine_error = EntityNotFound | StoreUnavailable | StoreTimeout | InvalidFilter

text \<open>
  Modelled from the spec: the engine's check of the filter parameter. The engine is not
  part of the sources; section 7 of the specification gives
  \<^verbatim>\<open>InvalidFilter\<close> for a filter value outside the closed enumeration.
\<close>

definition checkFilter :: "string \<Rightarrow> engine_error + string" where
  "checkFilter s = (if s \<in> set api_filters then Inr s else Inl InvalidFilter)"


subsection \<open>JavaScript strings\<close>

text \<open>
  A JavaScript string is a sequence of UTF-16 code units. The regular expression class
  \<^verbatim>\<open>\s\<close> (without the \<^verbatim>\<open>u\<close> flag) and \<^verbatim>\<open>String.prototype.trim\<close> use the same set
  of code units: ECMAScript's WhiteSpace and LineTerminator.
\<close>

type_synonym jsstring = "16 word list"

definition isWhiteSpace :: "16 word \<Rightarrow> bool" where
  "isWhiteSpace c =
     (c = 0x09 \<or> c = 0x0A \<or> c = 0x0B \<or> c = 0x0C \<or> c = 0x0D \<or> c = 0x20 \<or> c = 0xA0
      \<or> c = 0x1680 \<or> (0x2000 \<le> c \<and> c \<le> 0x200A) \<or> c = 0x2028 \<or> c = 0x2029
      \<or> c = 0x202F \<or> c = 0x205F \<or> c = 0x3000 \<or> c = 0xFEFF)"

text \<open>The class \<^verbatim>\<open>[,\s]\<close> of the tokenizer's regular expression.\<close>

definition isSeparator :: "16 word \<Rightarrow> bool" where
  "isSeparator c = (c = 0x2C \<or> isWhiteSpace c)"

text \<open>\<^verbatim>\<open>s.trim()\<close>: white space is removed from both ends.\<close>

definition trim :: "jsstring \<Rightarrow> jsstring" where
  "trim s = rev (dropWhile isWhiteSpace (rev (dropWhile isWhiteSpace s)))"

text \<open>
  \<^verbatim>\<open>input.split(/[,\s]+/)\<close>. The regular expression is greedy and matches a maximal
  run of separators, never the empty string, so the pieces are the substrings between
  the runs; a run at the start or at the end of the input gives an empty first or last
  piece, and the empty input gives one empty piece. \<open>cur\<close> is the piece being read.
\<close>

function split_sep :: "jsstring \<Rightarrow> jsstring \<Rightarrow> jsstring list" where
  "split_sep cur [] = [cur]"
| "split_sep cur (c # cs) =
     (if isSeparator c then cur # split_sep [] (dropWhile isSeparator cs)
      else split_sep (cur @ [c]) cs)"
  by pat_completeness auto
termination
  by (relation "measure (\<lambda>(cur, s). length s)")
     (auto simp: length_dropWhile_le less_Suc_eq_le)

definition split :: "jsstring \<Rightarrow> jsstring list" where
  "split s = split_sep [] s"

text \<open>An ASCII literal as a JavaScript string.\<close>

definition js :: "string \<Rightarrow> jsstring" where
  "js s = map of_char s"

subsection \<open>The tokenizer of multi-condition queries\<close>

text \<open>
  \<^verbatim>\<open>
  // split on commas or whitespace, trim, dedupe, keep order
  function parseDiseases(input: string): string[] {
    const parts = input.split(/[,\s]+/).map(s => s.trim()).filter(Boolean);
    const seen = new Set<string>(); const list: string[] = [];
    for (const p of parts) {
      const k = p.toLowerCase();
      if (!seen.has(k)) { seen.add(k); list.push(p); }
    }
    return list;
  }
  \<close>
  Both revisions of \<^verbatim>\<open>wellness.tsx\<close> have this function (one names the key
  \<^verbatim>\<open>lower\<close>). \<^verbatim>\<open>String.prototype.toLowerCase\<close> follows the Unicode case mappings; it is
  a parameter of the model. \<^verbatim>\<open>filter(Boolean)\<close> keeps the non-empty strings.
\<close>

fun dedupe_loop ::
  "(jsstring \<Rightarrow> jsstring) \<Rightarrow> jsstring list \<Rightarrow> jsstring set \<Rightarrow> jsstring list \<Rightarrow> jsstring list"
where
  "dedupe_loop toLowerCase [] seen list = list"
| "dedupe_loop toLowerCase (p # ps) seen list =
     (let k = toLowerCase p in
      if k \<notin> seen then dedupe_loop toLowerCase ps (insert k seen) (list @ [p])
      else dedupe_loop toLowerCase ps seen list)"

definition parts :: "jsstring \<Rightarrow> jsstring list" where
  "parts input = filter (\<lambda>s. s \<noteq> []) (map trim (split input))"

definition parseDiseases :: "(jsstring \<Rightarrow> jsstring) \<Rightarrow> jsstring \<Rightarrow> jsstring list" where
  "parseDiseases toLowerCase input = dedupe_loop toLowerCase (parts input) {} []"

text \<open>
  The tokenizer in the words of the specification: split at every comma and white space
  character, trim each piece, drop the empty pieces, and of the pieces that are equal up
  to case keep the first, in the order of the input.
\<close>

fun pieces :: "jsstring \<Rightarrow> jsstring list" where
  "pieces [] = [[]]"
| "pieces (c # cs) =
     (if isSeparator c then [] # pieces cs
      else (case pieces cs of [] \<Rightarrow> [[c]] | p # ps \<Rightarrow> (c # p) # ps))"

definition spec_tokens :: "jsstring \<Rightarrow> jsstring list" where
  "spec_tokens s = filter (\<lambda>t. t \<noteq> []) (map trim (pieces s))"

fun keep_first :: "('a \<Rightarrow> 'k) \<Rightarrow> 'a list \<Rightarrow> 'a list" where
  "keep_first key [] = []"
| "keep_first key (x # xs) = x # keep_first key (filter (\<lambda>y. key y \<noteq> key x) xs)"

text \<open>An ASCII-only lower-casing, used to run the tokenizer on examples.\<close>

definition ascii_lower :: "jsstring \<Rightarrow> jsstring" where
  "ascii_lower s = map (\<lambda>c. if 0x41 \<le> c \<and> c \<le> 0x5A then c + 0x20 else c) s"


subsection \<open>Result rows\<close>

text \<open>
  The items of a response are JSON objects; a field the code guards with \<^verbatim>\<open>??\<close> or
  \<^verbatim>\<open>||\<close> is optional here.
  \<^verbatim>\<open>
  type SourceRef = { label: string; url: string | null };
  type DiseaseItem = { food?: string; ingredient?: string; reason: string;
    severity: number; affectedDiseases?: string[]; sources?: SourceRef[] };
  type DiseaseGuide = { diseases: string[]; avoid?: DiseaseItem[]; beneficial?: DiseaseItem[] };
  type Row = DiseaseItem & { _kind: 'good' | 'bad', _name: string };
  \<close>
  The revision of \<^verbatim>\<open>wellness.tsx\<close> with the recipe card declares \<^verbatim>\<open>DiseaseItem\<close> without
  \<^verbatim>\<open>severity\<close>; the items the API returns carry it all the same and the spread
  \<^verbatim>\<open>{ ...x, _kind, _name }\<close> keeps every field of \<^verbatim>\<open>x\<close>. Severity is an integer (the
  evidence score).
\<close>

record SourceRef =
  label :: jsstring
  url :: "jsstring option"

record DiseaseItem =
  food :: "jsstring option"
  ingredient :: "jsstring option"
  reason :: jsstring
  severity :: "int option"
  affectedDiseases :: "jsstring list option"
  sources :: "SourceRef list option"

record DiseaseGuide =
  diseases :: "jsstring list"
  avoid :: "DiseaseItem list option"
  beneficial :: "DiseaseItem list option"

datatype kind = good | bad

record Row = DiseaseItem +
  row_kind :: kind
  row_name :: jsstring

text \<open>
  The pairing screen:
  \<^verbatim>\<open>
  type CompatibilityItem = { food: string; reason: string; severity: number; sources?: SourceRef[] };
  type CompatibilityResponse = { ingredient: string; category: string;
    avoid?: CompatibilityItem[]; beneficial?: CompatibilityItem[] };
  type Row = CompatibilityItem & { _kind: 'good' | 'bad' };
  \<close>
\<close>

record CompatibilityItem =
  c_food :: "jsstring option"
  c_reason :: jsstring
  c_severity :: "int option"
  c_sources :: "SourceRef list option"

record CompatibilityResponse =
  c_ingredient :: jsstring
  c_category :: jsstring
  c_avoid :: "CompatibilityItem list option"
  c_beneficial :: "CompatibilityItem list option"

record PairRow = CompatibilityItem +
  pair_kind :: kind

text \<open>\<^verbatim>\<open>a || b\<close> on optional strings: the empty string and a missing value are falsy.\<close>

definition or_string :: "jsstring option \<Rightarrow> jsstring option \<Rightarrow> jsstring option" where
  "or_string a b = (case a of Some s \<Rightarrow> (if s \<noteq> [] then a else b) | None \<Rightarrow> b)"

text \<open>\<^verbatim>\<open>a ?? d\<close>: the default replaces a missing value.\<close>

definition nullish :: "'a option \<Rightarrow> 'a \<Rightarrow> 'a" where
  "nullish a d = (case a of Some v \<Rightarrow> v | None \<Rightarrow> d)"

text \<open>
  \<^verbatim>\<open>a.localeCompare(b, undefined, { sensitivity: 'base' })\<close> compares two strings by
  the collation of the locale, letters that differ only in case or accent comparing equal.
  The collation is a parameter: \<open>collate\<close> gives the collation key of a string, in a
  linear order, and two strings compare as their keys do.
\<close>

definition localeCompare :: "(jsstring \<Rightarrow> 'k::linorder) \<Rightarrow> jsstring \<Rightarrow> jsstring \<Rightarrow> int" where
  "localeCompare collate a b =
     (if collate a < collate b then - 1 else if collate a = collate b then 0 else 1)"

text \<open>
  \<^verbatim>\<open>Array.prototype.sort(compare)\<close> is a stable sort: an insertion sort that puts an
  element before the first one it does not compare greater than.
\<close>

fun insert_by :: "('a \<Rightarrow> 'a \<Rightarrow> int) \<Rightarrow> 'a \<Rightarrow> 'a list \<Rightarrow> 'a list" where
  "insert_by compare x [] = [x]"
| "insert_by compare x (y # ys) =
     (if compare x y \<le> 0 then x # y # ys else y # insert_by compare x ys)"

definition sort_by :: "('a \<Rightarrow> 'a \<Rightarrow> int) \<Rightarrow> 'a list \<Rightarrow> 'a list" where
  "sort_by compare xs = foldr (insert_by compare) xs []"

text \<open>
  \<^verbatim>\<open>const nameOf = (x: DiseaseItem) => (x.food || x.ingredient || '').trim();\<close>
\<close>

definition nameOf :: "'a DiseaseItem_scheme \<Rightarrow> jsstring" where
  "nameOf x = trim (nullish (or_string (or_string (food x) (ingredient x)) (Some [])) [])"

text \<open>\<^verbatim>\<open>x => ({ ...x, _kind: 'good' as const, _name: nameOf(x) })\<close>\<close>

definition toRow :: "kind \<Rightarrow> DiseaseItem \<Rightarrow> Row" where
  "toRow k x = DiseaseItem.extend x (Row.fields k (nameOf x))"

text \<open>
  The revision of \<^verbatim>\<open>wellness.tsx\<close> with the recipe card:
  \<^verbatim>\<open>
  function rowsFromResult(res: DiseaseGuide, filter: Filter | null): Row[] {
    const nameOf = (x: DiseaseItem) => (x.food || x.ingredient || '').trim();
    const goods: Row[] = (res.beneficial ?? []).map(x => ({ ...x, _kind: 'good' as const, _name: nameOf(x) }));
    const bads:  Row[] = (res.avoid ?? []).map(x => ({ ...x, _kind: 'bad'  as const, _name: nameOf(x) }));
    const byName = (a: DiseaseItem, b: DiseaseItem) =>
      nameOf(a).localeCompare(nameOf(b), undefined, { sensitivity: 'base' });
    goods.sort(byName); bads.sort(byName);
    if (filter === 'benefit') return goods;
    if (filter === 'avoid')   return bads;
    return [...goods, ...bads];
  }
  \<close>
\<close>

definition byName :: "(jsstring \<Rightarrow> 'k::linorder) \<Rightarrow> 'a DiseaseItem_scheme \<Rightarrow> 'a DiseaseItem_scheme \<Rightarrow> int" where
  "byName collate a b = localeCompare collate (nameOf a) (nameOf b)"

definition rowsFromResult_byName ::
  "(jsstring \<Rightarrow> 'k::linorder) \<Rightarrow> DiseaseGuide \<Rightarrow> string option \<Rightarrow> Row list" where
  "rowsFromResult_byName collate res filter' =
     (let goods = sort_by (byName collate) (map (toRow good) (nullish (beneficial res) []));
          bads = sort_by (byName collate) (map (toRow bad) (nullish (avoid res) []))
      in if filter' = Some ''benefit'' then goods
         else if filter' = Some ''avoid'' then bads
         else goods @ bads)"

text \<open>
  The other revision of \<^verbatim>\<open>wellness.tsx\<close> sorts with
  \<^verbatim>\<open>
  const bySeverity = (a: DiseaseItem, b: DiseaseItem) =>
    (b.severity ?? 0) - (a.severity ?? 0)
      || (nameOf(a)).localeCompare(nameOf(b), undefined, { sensitivity: 'base' });
  \<close>
  and is the same otherwise. A difference of zero is falsy.
\<close>

definition bySeverity :: "(jsstring \<Rightarrow> 'k::linorder) \<Rightarrow> 'a DiseaseItem_scheme \<Rightarrow> 'a DiseaseItem_scheme \<Rightarrow> int" where
  "bySeverity collate a b =
     (let d = nullish (severity b) 0 - nullish (severity a) 0
      in if d \<noteq> 0 then d else localeCompare collate (nameOf a) (nameOf b))"

definition rowsFromResult_bySeverity ::
  "(jsstring \<Rightarrow> 'k::linorder) \<Rightarrow> DiseaseGuide \<Rightarrow> string option \<Rightarrow> Row list" where
  "rowsFromResult_bySeverity collate res filter' =
     (let goods = sort_by (bySeverity collate) (map (toRow good) (nullish (beneficial res) []));
          bads = sort_by (bySeverity collate) (map (toRow bad) (nullish (avoid res) []))
      in if filter' = Some ''benefit'' then goods
         else if filter' = Some ''avoid'' then bads
         else goods @ bads)"

text \<open>
  The pairing screen (\<^verbatim>\<open>pair.tsx\<close>):
  \<^verbatim>\<open>
  function rowsFromResult(res: CompatibilityResponse, filter: Filter | null): Row[] {
    const goods: Row[] = (res.beneficial ?? []).map(x => ({ ...x, _kind: 'good' as const }));
    const bads:  Row[] = (res.avoid ?? []).map(x => ({ ...x, _kind: 'bad'  as const }));
    // sort each bucket: severity desc, then name asc (stable & predictable)
    const bySeverity = (a: CompatibilityItem, b: CompatibilityItem) =>
      (b.severity ?? 0) - (a.severity ?? 0)
        || (a.food || '').localeCompare(b.food || '', undefined, { sensitivity: 'base' });
    goods.sort(bySeverity);
    bads.sort(bySeverity);
    // return according to filter
    if (filter === 'benefit') return goods;
    if (filter === 'avoid')   return bads;
    // 'all' (or null): Good group first, then Bad group
    return [...goods, ...bads];
  }
  \<close>
\<close>

definition foodOf :: "'a CompatibilityItem_scheme \<Rightarrow> jsstring" where
  "foodOf a = nullish (or_string (c_food a) (Some [])) []"

definition toPairRow :: "kind \<Rightarrow> CompatibilityItem \<Rightarrow> PairRow" where
  "toPairRow k x = CompatibilityItem.extend x (PairRow.fields k)"

definition bySeverity_pair ::
  "(jsstring \<Rightarrow> 'k::linorder) \<Rightarrow> 'a CompatibilityItem_scheme \<Rightarrow> 'a CompatibilityItem_scheme \<Rightarrow> int" where
  "bySeverity_pair collate a b =
     (let d = nullish (c_severity b) 0 - nullish (c_severity a) 0
      in if d \<noteq> 0 then d else localeCompare collate (foodOf a) (foodOf b))"

definition rowsFromResult_pair ::
  "(jsstring \<Rightarrow> 'k::linorder) \<Rightarrow> CompatibilityResponse \<Rightarrow> string option \<Rightarrow> PairRow list" where
  "rowsFromResult_pair collate res filter' =
     (let goods = sort_by (bySeverity_pair collate) (map (toPairRow good) (nullish (c_beneficial res) []));
          bads = sort_by (bySeverity_pair collate) (map (toPairRow bad) (nullish (c_avoid res) []))
      in if filter' = Some ''benefit'' then goods
         else if filter' = Some ''avoid'' then bads
         else goods @ bads)"

text \<open>
  The order the rows of a bucket are claimed to have: score descending, and among equal
  scores the name ascending in the collation.
\<close>

definition score_then_name ::
  "('r \<Rightarrow> int) \<Rightarrow> ('r \<Rightarrow> 'k::linorder) \<Rightarrow> 'r \<Rightarrow> 'r \<Rightarrow> bool" where
  "score_then_name score name a b =
     (score b < score a \<or> (score a = score b \<and> name a \<le> name b))"

definition name_key :: "(jsstring \<Rightarrow> 'k) \<Rightarrow> 'a DiseaseItem_scheme \<Rightarrow> 'k" where
  "name_key collate r = collate (nameOf r)"

definition food_key :: "(jsstring \<Rightarrow> 'k) \<Rightarrow> 'a CompatibilityItem_scheme \<Rightarrow> 'k" where
  "food_key collate r = collate (foodOf r)"

definition scoreOf :: "'a DiseaseItem_scheme \<Rightarrow> int" where
  "scoreOf x = nullish (severity x) 0"

definition scoreOf_pair :: "'a CompatibilityItem_scheme \<Rightarrow> int" where
  "scoreOf_pair x = nullish (c_severity x) 0"

subsection \<open>Searching: the request and its failure\<close>

text \<open>
  The screens keep their state in React hooks; the state is a record here, and
  \<^verbatim>\<open>onSearch\<close> takes it and returns the state after the request has ended.
  \<^verbatim>\<open>fetch\<close> is the environment: it answers a request with a response or rejects
  with an error (\<^verbatim>\<open>AbortError\<close> when the timer aborts it).
\<close>

record js_error =
  err_name :: jsstring
  err_message :: jsstring

text \<open>
  \<^verbatim>\<open>res.json()\<close> rejects when the body is absent or is not JSON; otherwise it gives a
  value, read as the data of the response, whose \<^verbatim>\<open>message\<close> the code reads into
  \<^verbatim>\<open>let msg: string | undefined\<close>.
\<close>

datatype 'd body = Unparseable js_error | Parsed "jsstring option" 'd

record 'd response =
  status :: nat
  body :: "'d body"

datatype 'd fetched = Rejected js_error | Responded "'d response"

datatype request = GuideRequest "jsstring list" string | CompatibilityRequest jsstring string

text \<open>\<^verbatim>\<open>res.ok\<close>: the status is in the range 200 to 299.\<close>

definition ok :: "'d response \<Rightarrow> bool" where
  "ok res = (200 \<le> status res \<and> status res \<le> 299)"

text \<open>The decimal digits of a status, as the template literal writes it.\<close>

function show_nat :: "nat \<Rightarrow> jsstring" where
  "show_nat n = (if n < 10 then [of_nat (48 + n)] else show_nat (n div 10) @ [of_nat (48 + n mod 10)])"
  by pat_completeness auto
termination
  by (relation "measure (\<lambda>n. n)") auto

definition new_Error :: "jsstring \<Rightarrow> js_error" where
  "new_Error m = \<lparr>err_name = js ''Error'', err_message = m\<rparr>"

text \<open>
  \<^verbatim>\<open>
  if (!res.ok) {
    let msg: string | undefined;
    try { msg = (await res.json())?.message; } catch {}
    throw new Error(msg || `Request failed (${res.status})`);
  }
  const data: DiseaseGuide = await res.json();
  \<close>
  The same lines stand in both revisions of \<^verbatim>\<open>wellness.tsx\<close> and in \<^verbatim>\<open>pair.tsx\<close>.
  A thrown error is \<open>Inl\<close>.
\<close>

definition request_failed :: "nat \<Rightarrow> jsstring" where
  "request_failed s = js ''Request failed ('' @ show_nat s @ js '')''"

definition readResponse :: "'d response \<Rightarrow> js_error + 'd" where
  "readResponse res =
     (if \<not> ok res then
        (let msg = (case body res of Unparseable e \<Rightarrow> None | Parsed m d \<Rightarrow> m)
         in Inl (new_Error (nullish (or_string msg (Some (request_failed (status res)))) [])))
      else (case body res of Unparseable e \<Rightarrow> Inl e | Parsed m d \<Rightarrow> Inr d))"

text \<open>
  \<^verbatim>\<open>
  err?.name === 'AbortError' ? 'Request timed out' : (err?.message || 'Something went wrong')
  \<close>
\<close>

definition caught_message :: "js_error \<Rightarrow> jsstring" where
  "caught_message err =
     (if err_name err = js ''AbortError'' then js ''Request timed out''
      else nullish (or_string (Some (err_message err)) (Some (js ''Something went wrong''))) [])"

record 'd screen_state =
  query :: jsstring
  filter_state :: "string option"
  recents :: "jsstring list"
  loading :: bool
  result :: "'d option"
  errorMsg :: "jsstring option"
  activeSeg :: string

text \<open>The revision of the wellness screen with the recipe card adds the state of the recipe.\<close>

record ('d, 'r) wellness_state = "'d screen_state" +
  recipe :: "'r option"
  recipeErr :: "jsstring option"
  debugRaw :: "jsstring option"
  debugStatus :: "nat option"
  debugPayload :: "jsstring option"

definition MAX_RECENTS :: nat where
  "MAX_RECENTS = 4"

text \<open>
  \<^verbatim>\<open>
  const addRecent = async (text: string) => {
    const t = text.trim(); if (!t) return;
    const next = [t, ...recents.filter(r => r.toLowerCase() !== t.toLowerCase())].slice(0, MAX_RECENTS);
    await persistRecents(next);
  };
  \<close>
  \<^verbatim>\<open>persistRecents\<close> sets the state and writes the storage, ignoring a failure.
\<close>

definition addRecent ::
  "(jsstring \<Rightarrow> jsstring) \<Rightarrow> jsstring \<Rightarrow> ('d, 'z) screen_state_scheme \<Rightarrow> ('d, 'z) screen_state_scheme" where
  "addRecent toLowerCase text st =
     (let t = trim text in
      if t = [] then st
      else st\<lparr>recents :=
        take MAX_RECENTS (t # filter (\<lambda>r. toLowerCase r \<noteq> toLowerCase t) (recents st))\<rparr>)"

text \<open>
  The \<^verbatim>\<open>try\<close>, \<^verbatim>\<open>catch\<close> and \<^verbatim>\<open>finally\<close> blocks of \<^verbatim>\<open>onSearch\<close>:
  \<^verbatim>\<open>
  try {
    const res = await fetch(...);
    ... (the lines of readResponse)
    setResult(data);
    setActiveSeg('wellness');
  } catch (err: any) {
    setErrorMsg(err?.name === 'AbortError' ? 'Request timed out' : (err?.message || 'Something went wrong'));
    setResult(null);
  } finally {
    clearTimeout(timeout);
    setLoading(false);
  }
  \<close>
\<close>

definition settle ::
  "string \<Rightarrow> 'd fetched \<Rightarrow> ('d, 'z) screen_state_scheme \<Rightarrow> ('d, 'z) screen_state_scheme" where
  "settle seg answer st =
     (case (case answer of Rejected e \<Rightarrow> Inl e | Responded res \<Rightarrow> readResponse res) of
        Inr data \<Rightarrow> st\<lparr>result := Some data, activeSeg := seg, loading := False\<rparr>
      | Inl err \<Rightarrow> st\<lparr>errorMsg := Some (caught_message err), result := None, loading := False\<rparr>)"

text \<open>
  The revision of \<^verbatim>\<open>wellness.tsx\<close> with the recipe card:
  \<^verbatim>\<open>
  const onSearch = async () => {
    const q = query.trim();
    if (!q) return;
    const diseases = parseDiseases(q);
    if (diseases.length === 0) return;
    await addRecent(q);
    setLoading(true);
    setErrorMsg(null);
    setResult(null);
    setRecipe(null);
    setRecipeErr(null);
    setDebugRaw(null);
    setDebugStatus(null);
    setDebugPayload(null);
    ...
      const res = await fetch(`${BASE_URL}/api/diseases/guide`, {
        method: 'POST', ...
        body: JSON.stringify({ diseases, filter: apiFilter(filter) }), ... });
  \<close>
\<close>

definition onSearch_wellness ::
  "(jsstring \<Rightarrow> jsstring) \<Rightarrow> (request \<Rightarrow> 'd fetched) \<Rightarrow> ('d, 'r) wellness_state
     \<Rightarrow> ('d, 'r) wellness_state" where
  "onSearch_wellness toLowerCase fetch st =
     (let q = trim (query st) in
      if q = [] then st
      else let diseases = parseDiseases toLowerCase q in
        if length diseases = 0 then st
        else
          let st1 = addRecent toLowerCase q st;
              st2 = st1\<lparr>loading := True, errorMsg := None, result := None, recipe := None,
                      recipeErr := None, debugRaw := None, debugStatus := None,
                      debugPayload := None\<rparr>
          in settle ''wellness'' (fetch (GuideRequest diseases (apiFilter (filter_state st)))) st2)"

text \<open>
  The other revision of \<^verbatim>\<open>wellness.tsx\<close> has no recipe state; it is the same otherwise.
\<close>

definition onSearch_wellness_plain ::
  "(jsstring \<Rightarrow> jsstring) \<Rightarrow> (request \<Rightarrow> 'd fetched) \<Rightarrow> ('d, 'z) screen_state_scheme
     \<Rightarrow> ('d, 'z) screen_state_scheme" where
  "onSearch_wellness_plain toLowerCase fetch st =
     (let q = trim (query st) in
      if q = [] then st
      else let diseases = parseDiseases toLowerCase q in
        if length diseases = 0 then st
        else
          let st1 = addRecent toLowerCase q st;
              st2 = st1\<lparr>loading := True, errorMsg := None, result := None\<rparr>
          in settle ''wellness'' (fetch (GuideRequest diseases (apiFilter (filter_state st)))) st2)"

text \<open>
  \<^verbatim>\<open>pair.tsx\<close>:
  \<^verbatim>\<open>
  const onSearch = async () => {
    const q = query.trim();
    if (!q) return;
    await addRecent(q);
    setLoading(true);
    setErrorMsg(null);
    setResult(null);
    ...
      const url = `${BASE_URL}/api/ingredients/${encodeURIComponent(q)}/compatibility?filter=${apiFilter(filter)}`;
      const res = await fetch(url, { method: 'GET', ... });
      ...
      setResult(data); // show inline (no modal)
      setActiveSeg('pairing');
  \<close>
\<close>

definition onSearch_pair ::
  "(jsstring \<Rightarrow> jsstring) \<Rightarrow> (request \<Rightarrow> 'd fetched) \<Rightarrow> ('d, 'z) screen_state_scheme
     \<Rightarrow> ('d, 'z) screen_state_scheme" where
  "onSearch_pair toLowerCase fetch st =
     (let q = trim (query st) in
      if q = [] then st
      else
        let st1 = addRecent toLowerCase q st;
            st2 = st1\<lparr>loading := True, errorMsg := None, result := None\<rparr>
        in settle ''pairing'' (fetch (CompatibilityRequest q (apiFilter (filter_state st)))) st2)"

text \<open>A \<^verbatim>\<open>fetch\<close> that answers every request with the same response.\<close>

definition answering :: "'d response \<Rightarrow> request \<Rightarrow> 'd fetched" where
  "answering res req = Responded res"

text \<open>What the screen shows after a response that is not 2xx.\<close>

definition surfaced :: "'d response \<Rightarrow> jsstring" where
  "surfaced res =
     (case body res of
        Parsed (Some m) d \<Rightarrow> if m \<noteq> [] then m else request_failed (status res)
      | Parsed None d \<Rightarrow> request_failed (status res)
      | Unparseable e \<Rightarrow> request_failed (status res))"

definition example_state :: "(nat, nat) wellness_state" where
  "example_state =
     \<lparr>query = js '' gout, flu'', filter_state = Some ''benefit'', recents = [], loading = False,
      result = Some 7, errorMsg = None, activeSeg = ''wellness'', recipe = Some 1,
      recipeErr = None, debugRaw = None, debugStatus = None, debugPayload = None\<rparr>"

definition not_found :: "nat response" where
  "not_found = \<lparr>status = 404, body = Parsed (Some (js ''No such condition'')) 0\<rparr>"

definition unavailable :: "nat response" where
  "unavailable = \<lparr>status = 503, body = Unparseable (new_Error (js ''Unexpected end of input''))\<rparr>"

definition empty_message :: "nat response" where
  "empty_message = \<lparr>status = 500, body = Parsed (Some []) 0\<rparr>"

subsection \<open>The relational schema\<close>

text \<open>
  \<^verbatim>\<open>V2__create_tables.sql\<close> declares the tables; \<^verbatim>\<open>V1\<close> declares
  \<^verbatim>\<open>CREATE TYPE interaction_entity_type AS ENUM ('INGREDIENT', 'CONDITION')\<close>.
  A column that may be \<^verbatim>\<open>NULL\<close> in a statement is an optional value; \<^verbatim>\<open>NOT NULL\<close>
  is a constraint like the others, checked when a statement ends. The primary key
  \<^verbatim>\<open>id BIGINT GENERATED ALWAYS AS IDENTITY\<close> is given by the table's sequence, never by
  the statement. The columns \<^verbatim>\<open>created_at\<close> and \<^verbatim>\<open>updated_at\<close> have a default and
  take part in no constraint; they are left out, as are the tables that no constraint of
  \<^verbatim>\<open>interaction\<close>, \<^verbatim>\<open>source\<close> and \<^verbatim>\<open>evidence_level\<close> mentions.
\<close>

datatype interaction_entity_type = INGREDIENT | CONDITION

record interaction_cols =
  a_type :: "interaction_entity_type option"
  a_id :: "int option"
  b_type :: "interaction_entity_type option"
  b_id :: "int option"
  itype :: "string option"
  rationale :: "string option"

text \<open>The revision of the migration with evidence levels adds a column.\<close>

record interaction_ev_cols = interaction_cols +
  evidence :: "int option"

record source_cols =
  src_label :: "string option"
  src_url :: "string option"
  publisher :: "string option"
  year :: "int option"

record evidence_level_cols =
  level_score :: "int option"
  level_label :: "string option"

record 'c table =
  rows :: "(int \<times> 'c) list"
  next_id :: int

record 'i db =
  evidence_level :: "evidence_level_cols list"
  interaction :: "'i table"
  source :: "source_cols table"

text \<open>
  Statements: a row is inserted, the row with a given key is updated to new column values,
  or it is deleted. A statement over several rows is a sequence of these.
\<close>

datatype 'c dml = Insert 'c | Update int 'c | Delete int

datatype 'i stmt =
  Interaction "'i dml" | Source "source_cols dml" | Evidence_level "evidence_level_cols dml"

datatype sql_error = Violates string | Undefined_table string

fun apply_dml :: "'c table \<Rightarrow> 'c dml \<Rightarrow> 'c table" where
  "apply_dml t (Insert c) = \<lparr>rows = rows t @ [(next_id t, c)], next_id = next_id t + 1\<rparr>"
| "apply_dml t (Update k c) = t\<lparr>rows := map (\<lambda>(i, old). if i = k then (i, c) else (i, old)) (rows t)\<rparr>"
| "apply_dml t (Delete k) = t\<lparr>rows := filter (\<lambda>(i, old). i \<noteq> k) (rows t)\<rparr>"

text \<open>The key of \<^verbatim>\<open>evidence_level\<close> is its \<^verbatim>\<open>score\<close>.\<close>

fun apply_level_dml :: "evidence_level_cols list \<Rightarrow> evidence_level_cols dml \<Rightarrow> evidence_level_cols list" where
  "apply_level_dml ls (Insert c) = ls @ [c]"
| "apply_level_dml ls (Update k c) = map (\<lambda>l. if level_score l = Some k then c else l) ls"
| "apply_level_dml ls (Delete k) = filter (\<lambda>l. level_score l \<noteq> Some k) ls"

fun effect :: "'i db \<Rightarrow> 'i stmt \<Rightarrow> 'i db" where
  "effect d (Interaction s) = d\<lparr>interaction := apply_dml (interaction d) s\<rparr>"
| "effect d (Source s) = d\<lparr>source := apply_dml (source d) s\<rparr>"
| "effect d (Evidence_level s) = d\<lparr>evidence_level := apply_level_dml (evidence_level d) s\<rparr>"

text \<open>
  A \<^verbatim>\<open>CHECK\<close> constraint is violated only when its condition is false; it holds when
  the condition is true or unknown (a \<^verbatim>\<open>NULL\<close> operand).
\<close>

definition check_holds :: "bool option \<Rightarrow> bool" where
  "check_holds v = (v \<noteq> Some False)"

definition sql_between :: "int option \<Rightarrow> int \<Rightarrow> int \<Rightarrow> bool option" where
  "sql_between v lo hi = map_option (\<lambda>x. lo \<le> x \<and> x \<le> hi) v"

definition sql_in :: "string option \<Rightarrow> string list \<Rightarrow> bool option" where
  "sql_in v xs = map_option (\<lambda>x. x \<in> set xs) v"

definition not_null :: "('c \<Rightarrow> 'a option) \<Rightarrow> (int \<times> 'c) list \<Rightarrow> bool" where
  "not_null col rs = list_all (\<lambda>(i, c). col c \<noteq> None) rs"

text \<open>
  \<^verbatim>\<open>UNIQUE\<close>: no two rows have equal values in the columns of the key; a row with a
  \<^verbatim>\<open>NULL\<close> in one of them (key \<open>None\<close>) equals no row.
\<close>

definition unique_key :: "('c \<Rightarrow> 'k option) \<Rightarrow> (int \<times> 'c) list \<Rightarrow> bool" where
  "unique_key key rs = distinct (List.map_filter (\<lambda>(i, c). key c) rs)"

text \<open>The integer types: \<^verbatim>\<open>SMALLINT\<close>, \<^verbatim>\<open>INTEGER\<close>, \<^verbatim>\<open>BIGINT\<close> have 16, 32, 64 bits.\<close>

definition fits :: "nat \<Rightarrow> int option \<Rightarrow> bool" where
  "fits bits v = (case v of None \<Rightarrow> True | Some x \<Rightarrow> - (2 ^ (bits - 1)) \<le> x \<and> x < 2 ^ (bits - 1))"

text \<open>
  \<^verbatim>\<open>CONSTRAINT uq_interaction UNIQUE (a_type, a_id, b_type, b_id, itype)\<close>
\<close>

definition interaction_key ::
  "'a interaction_cols_scheme \<Rightarrow>
     (interaction_entity_type \<times> int \<times> interaction_entity_type \<times> int \<times> string) option" where
  "interaction_key c =
     (case (a_type c, a_id c, b_type c, b_id c, itype c) of
        (Some at, Some ai, Some bt, Some bi, Some it) \<Rightarrow> Some (at, ai, bt, bi, it)
      | _ \<Rightarrow> None)"

text \<open>
  The constraints that the columns of \<^verbatim>\<open>interaction\<close> carry in both revisions:
  \<^verbatim>\<open>
  id           BIGINT GENERATED ALWAYS AS IDENTITY PRIMARY KEY,
  a_type       interaction_entity_type NOT NULL,
  a_id         BIGINT NOT NULL,
  b_type       interaction_entity_type NOT NULL,
  b_id         BIGINT NOT NULL,
  itype        TEXT,
  rationale    TEXT,
  \<close>
\<close>

definition interaction_columns :: "(int \<times> 'a interaction_cols_scheme) list \<Rightarrow> (string \<times> bool) list" where
  "interaction_columns rs =
     [(''interaction.a_type NOT NULL'', not_null a_type rs),
      (''interaction.a_id NOT NULL'', not_null a_id rs),
      (''interaction.a_id BIGINT'', list_all (\<lambda>(i, c). fits 64 (a_id c)) rs),
      (''interaction.b_type NOT NULL'', not_null b_type rs),
      (''interaction.b_id NOT NULL'', not_null b_id rs),
      (''interaction.b_id BIGINT'', list_all (\<lambda>(i, c). fits 64 (b_id c)) rs),
      (''interaction_pkey'', distinct (map fst rs))]"

text \<open>
  \<^verbatim>\<open>
  CREATE TABLE IF NOT EXISTS source (
    id           BIGINT GENERATED ALWAYS AS IDENTITY PRIMARY KEY,
    label        TEXT    NOT NULL,
    url          TEXT,
    publisher    TEXT,
    year         INTEGER,
    ...
    CONSTRAINT uq_source_url UNIQUE (url),
    CONSTRAINT chk_source_year CHECK (year IS NULL OR (year BETWEEN 1000 AND 9999))
  );
  \<close>
  The table is the same in both revisions.
\<close>

definition source_constraints :: "(int \<times> source_cols) list \<Rightarrow> (string \<times> bool) list" where
  "source_constraints rs =
     [(''source.label NOT NULL'', not_null src_label rs),
      (''source.year INTEGER'', list_all (\<lambda>(i, c). fits 32 (year c)) rs),
      (''chk_source_year'',
         list_all (\<lambda>(i, c). check_holds
           (case year c of None \<Rightarrow> Some True | Some y \<Rightarrow> sql_between (Some y) 1000 9999)) rs),
      (''source_pkey'', distinct (map fst rs)),
      (''uq_source_url'', unique_key src_url rs)]"

text \<open>
  The revision without evidence levels:
  \<^verbatim>\<open>
  CONSTRAINT uq_interaction UNIQUE (a_type, a_id, b_type, b_id, itype),
  CONSTRAINT chk_interaction_itype CHECK (itype IN ('avoid','benefit'))
  \<close>
\<close>

definition constraints_uq :: "interaction_cols db \<Rightarrow> (string \<times> bool) list" where
  "constraints_uq d =
     interaction_columns (rows (interaction d))
     @ [(''chk_interaction_itype'',
           list_all (\<lambda>(i, c). check_holds (sql_in (itype c) [''avoid'', ''benefit'']))
             (rows (interaction d))),
        (''uq_interaction'', unique_key interaction_key (rows (interaction d)))]
     @ source_constraints (rows (source d))"

text \<open>
  The revision with evidence levels:
  \<^verbatim>\<open>
  CREATE TABLE IF NOT EXISTS evidence_level (
    score  SMALLINT PRIMARY KEY,  -- 0..5
    label  TEXT NOT NULL
  );
  \<close>
  and in \<^verbatim>\<open>interaction\<close>, where \<^verbatim>\<open>uq_interaction\<close> and \<^verbatim>\<open>chk_interaction_itype\<close>
  are not declared,
  \<^verbatim>\<open>
  evidence     SMALLINT NOT NULL DEFAULT 0 REFERENCES evidence_level(score), -- evidence level (0-5)
  CONSTRAINT chk_interaction_evidence CHECK (evidence BETWEEN 0 AND 5)
  \<close>
  A foreign key holds for a row whose column is \<^verbatim>\<open>NULL\<close>. An \<^verbatim>\<open>INSERT\<close> that does
  not name the column \<^verbatim>\<open>evidence\<close> inserts its default.
\<close>

definition evidence_default :: "int option" where
  "evidence_default = Some 0"

definition constraints_ev :: "interaction_ev_cols db \<Rightarrow> (string \<times> bool) list" where
  "constraints_ev d =
     [(''evidence_level.score SMALLINT'', list_all (\<lambda>l. fits 16 (level_score l)) (evidence_level d)),
      (''evidence_level.label NOT NULL'', list_all (\<lambda>l. level_label l \<noteq> None) (evidence_level d)),
      (''evidence_level_pkey'',
         list_all (\<lambda>l. level_score l \<noteq> None) (evidence_level d)
         \<and> distinct (map level_score (evidence_level d)))]
     @ interaction_columns (rows (interaction d))
     @ [(''interaction.evidence NOT NULL'', not_null evidence (rows (interaction d))),
        (''interaction.evidence SMALLINT'',
           list_all (\<lambda>(i, c). fits 16 (evidence c)) (rows (interaction d))),
        (''chk_interaction_evidence'',
           list_all (\<lambda>(i, c). check_holds (sql_between (evidence c) 0 5)) (rows (interaction d))),
        (''interaction_evidence_fkey'',
           list_all (\<lambda>(i, c). evidence c = None \<or> evidence c \<in> set (map level_score (evidence_level d)))
             (rows (interaction d)))]
     @ source_constraints (rows (source d))"

definition violated :: "(string \<times> bool) list \<Rightarrow> string list" where
  "violated cs = map fst (filter (\<lambda>(n, holds). \<not> holds) cs)"

text \<open>
  A statement is carried out when no constraint is violated by its effect; otherwise it
  fails with the first violated constraint and changes nothing. (The value of the sequence
  that a failed \<^verbatim>\<open>INSERT\<close> uses up is not modelled; a key is only ever fresh.)
\<close>

definition exec_uq :: "interaction_cols db \<Rightarrow> interaction_cols stmt \<Rightarrow> sql_error + interaction_cols db" where
  "exec_uq d s =
     (case s of
        Evidence_level l \<Rightarrow> Inl (Undefined_table ''evidence_level'')
      | _ \<Rightarrow> (case violated (constraints_uq (effect d s)) of
            [] \<Rightarrow> Inr (effect d s)
          | n # ns \<Rightarrow> Inl (Violates n)))"

definition exec_ev ::
  "interaction_ev_cols db \<Rightarrow> interaction_ev_cols stmt \<Rightarrow> sql_error + interaction_ev_cols db" where
  "exec_ev d s =
     (case violated (constraints_ev (effect d s)) of
        [] \<Rightarrow> Inr (effect d s)
      | n # ns \<Rightarrow> Inl (Violates n))"

text \<open>A session: the statements in turn, a failed one leaving the database as it was.\<close>

fun run :: "('d \<Rightarrow> 's \<Rightarrow> sql_error + 'd) \<Rightarrow> 'd \<Rightarrow> 's list \<Rightarrow> 'd" where
  "run exec d [] = d"
| "run exec d (s # ss) = run exec (case exec d s of Inr d' \<Rightarrow> d' | Inl e \<Rightarrow> d) ss"

definition empty_table :: "'c table" where
  "empty_table = \<lparr>rows = [], next_id = 1\<rparr>"

definition migrated_uq :: "interaction_cols db" where
  "migrated_uq = \<lparr>evidence_level = [], interaction = empty_table, source = empty_table\<rparr>"

text \<open>
  \<^verbatim>\<open>
  INSERT INTO evidence_level(score,label) VALUES
    (5,'Guideline'), (4,'Strong (Systematic Review / RCT)'), (3,'Moderate (Observational)'),
    (2,'Limited (Expert Opinion)'), (1,'Minimal / Unspecified'), (0,'No Source')
  ON CONFLICT (score) DO NOTHING;
  \<close>
\<close>

definition migrated_ev :: "interaction_ev_cols db" where
  "migrated_ev =
     \<lparr>evidence_level =
        [\<lparr>level_score = Some 5, level_label = Some ''Guideline''\<rparr>,
         \<lparr>level_score = Some 4, level_label = Some ''Strong (Systematic Review / RCT)''\<rparr>,
         \<lparr>level_score = Some 3, level_label = Some ''Moderate (Observational)''\<rparr>,
         \<lparr>level_score = Some 2, level_label = Some ''Limited (Expert Opinion)''\<rparr>,
         \<lparr>level_score = Some 1, level_label = Some ''Minimal / Unspecified''\<rparr>,
         \<lparr>level_score = Some 0, level_label = Some ''No Source''\<rparr>],
      interaction = empty_table, source = empty_table\<rparr>"

text \<open>The sequence of a table is ahead of the keys it has given out.\<close>

definition fresh :: "'c table \<Rightarrow> bool" where
  "fresh t = list_all (\<lambda>(i, c). i < next_id t) (rows t)"

definition consistent :: "('i db \<Rightarrow> (string \<times> bool) list) \<Rightarrow> 'i db \<Rightarrow> bool" where
  "consistent constraints d =
     (violated (constraints d) = [] \<and> fresh (interaction d) \<and> fresh (source d))"

text \<open>A citation that has no link.\<close>

definition unlinked :: "source_cols \<Rightarrow> bool" where
  "unlinked c =
     (src_label c \<noteq> None \<and> src_url c = None
      \<and> (case year c of None \<Rightarrow> True | Some y \<Rightarrow> 1000 \<le> y \<and> y \<le> 9999))"

text \<open>Rows to run the statements on.\<close>

definition edge :: "string option \<Rightarrow> interaction_cols" where
  "edge t =
     \<lparr>a_type = Some INGREDIENT, a_id = Some 1, b_type = Some CONDITION, b_id = Some 2,
      itype = t, rationale = None\<rparr>"

definition edge_ev :: "string option \<Rightarrow> int option \<Rightarrow> interaction_ev_cols" where
  "edge_ev t e =
     \<lparr>a_type = Some INGREDIENT, a_id = Some 1, b_type = Some CONDITION, b_id = Some 2,
      itype = t, rationale = None, evidence = e\<rparr>"

definition citation :: "string option \<Rightarrow> source_cols" where
  "citation u = \<lparr>src_label = Some ''WHO'', src_url = u, publisher = None, year = Some 2020\<rparr>"

definition duplicate_edges :: "interaction_cols stmt list" where
  "duplicate_edges =
     [Interaction (Insert (edge (Some ''avoid''))), Interaction (Insert (edge (Some ''avoid''))),
      Interaction (Insert (edge (Some ''benefit'')))]"

definition null_edges :: "interaction_cols stmt list" where
  "null_edges = [Interaction (Insert (edge None)), Interaction (Insert (edge None))]"

definition duplicate_edges_ev :: "interaction_ev_cols stmt list" where
  "duplicate_edges_ev =
     [Interaction (Insert (edge_ev (Some ''avoid'') (Some 3))),
      Interaction (Insert (edge_ev (Some ''avoid'') (Some 3)))]"

definition graded_edges :: "interaction_ev_cols stmt list" where
  "graded_edges =
     [Interaction (Insert (edge_ev (Some ''avoid'') (Some 3))),
      Interaction (Insert (edge_ev (Some ''avoid'') (Some 6))),
      Interaction (Insert (edge_ev (Some ''benefit'') evidence_default)),
      Interaction (Update 1 (edge_ev (Some ''avoid'') (Some (- 1)))),
      Evidence_level (Delete 3)]"

definition citations :: "'i stmt list" where
  "citations =
     [Source (Insert (citation (Some ''https://who.int/a''))),
      Source (Insert (citation (Some ''https://who.int/a''))),
      Source (Insert (citation None)), Source (Insert (citation None))]"

subsection \<open>The condition guide of the engine\<close>

text \<open>
  The engine behind \<^verbatim>\<open>POST /api/diseases/guide\<close> is not part of the sources: the
  screens only call it. Its definitions here follow sections 4.1, 4.2 and 4.5 of the
  specification. An entity is referred to as section 9 of the specification writes it,
  \<^verbatim>\<open>EntityRef = Ingredient(id) | Condition(id)\<close>.
\<close>

datatype entity_ref = Ingredient nat | Condition nat

record entity =
  e_ref :: entity_ref
  e_name :: string
  e_aliases :: "string list"

record claim_edge =
  side_a :: entity_ref
  side_b :: entity_ref
  edge_itype :: string
  edge_rationale :: string
  edge_evidence :: nat

record guide_item =
  g_ref :: entity_ref
  g_food :: string
  g_reason :: string
  g_severity :: nat
  g_affectedDiseases :: "string list"

record guide_result =
  g_diseases :: "string list"
  g_avoid :: "guide_item list"
  g_beneficial :: "guide_item list"

text \<open>
  Modelled from the spec: \<^verbatim>\<open>resolve(text)\<close> of the Entity Catalog (section 4.1), which
  is not in the sources. The text is matched without regard to case against the canonical
  names first, then against the aliases; \<open>casefold\<close> is the case folding.
\<close>

definition resolve :: "(string \<Rightarrow> string) \<Rightarrow> entity list \<Rightarrow> string \<Rightarrow> engine_error + entity" where
  "resolve casefold catalog text =
     (case find (\<lambda>e. casefold (e_name e) = casefold text) catalog of
        Some e \<Rightarrow> Inr e
      | None \<Rightarrow>
         (case find (\<lambda>e. casefold text \<in> set (map casefold (e_aliases e))) catalog of
            Some e \<Rightarrow> Inr e
          | None \<Rightarrow> Inl EntityNotFound))"

text \<open>
  Modelled from the spec: the side of the tagged union \<^verbatim>\<open>EntityRef\<close> (section 9) an
  entity of the catalog is on; the catalog is not in the sources.
\<close>

definition is_condition :: "entity \<Rightarrow> bool" where
  "is_condition e = (case e_ref e of Condition n \<Rightarrow> True | Ingredient n \<Rightarrow> False)"

text \<open>
  Modelled from the spec: step 1 of the guide (section 4.5), which is not in the sources.
  Every token is resolved on its own; the tokens that resolve to a condition are kept, the
  others are dropped.
\<close>

definition resolved_conditions :: "(string \<Rightarrow> string) \<Rightarrow> entity list \<Rightarrow> string list \<Rightarrow> entity list" where
  "resolved_conditions casefold catalog texts =
     List.map_filter
       (\<lambda>t. case resolve casefold (filter is_condition catalog) t of Inr e \<Rightarrow> Some e | Inl err \<Rightarrow> None)
       texts"

text \<open>
  Modelled from the spec: \<^verbatim>\<open>edgesFor(entityRef)\<close> of the Interaction Store (section
  4.2), which is not in the sources: every edge that has the entity on either side.
\<close>

definition edgesFor :: "entity_ref \<Rightarrow> claim_edge list \<Rightarrow> claim_edge list" where
  "edgesFor r store = filter (\<lambda>e. side_a e = r \<or> side_b e = r) store"

text \<open>
  Modelled from the spec: the other entity of an edge (section 4.2: each returned row
  includes the other entity), which is not in the sources.
\<close>

definition other_side :: "entity_ref \<Rightarrow> claim_edge \<Rightarrow> entity_ref" where
  "other_side r e = (if side_a e = r then side_b e else side_a e)"

text \<open>
  Modelled from the spec: the read-through join to the display name of an entity
  (section 4.2), which is not in the sources.
\<close>

definition name_of :: "entity list \<Rightarrow> entity_ref \<Rightarrow> string option" where
  "name_of catalog r = map_option e_name (find (\<lambda>e. e_ref e = r) catalog)"

text \<open>
  Modelled from the spec: step 2 of the guide (section 4.5), which is not in the sources:
  the edges between a resolved condition and an ingredient that carry a given label.
\<close>

definition flagging_edges :: "string \<Rightarrow> claim_edge list \<Rightarrow> entity \<Rightarrow> entity_ref \<Rightarrow> claim_edge list" where
  "flagging_edges l store c i =
     filter (\<lambda>e. other_side (e_ref c) e = i \<and> edge_itype e = l) (edgesFor (e_ref c) store)"

text \<open>
  Modelled from the spec: the resolved conditions that flag an ingredient with a label
  (section 4.5, step 3), which is not in the sources.
\<close>

definition flagged_by :: "string \<Rightarrow> claim_edge list \<Rightarrow> entity list \<Rightarrow> entity_ref \<Rightarrow> entity list" where
  "flagged_by l store conditions i = filter (\<lambda>c. flagging_edges l store c i \<noteq> []) conditions"

text \<open>
  Modelled from the spec: the ingredient side of \<^verbatim>\<open>EntityRef\<close> (section 9), which
  is not in the sources.
\<close>

definition is_ingredient :: "entity_ref \<Rightarrow> bool" where
  "is_ingredient r = (case r of Ingredient n \<Rightarrow> True | Condition n \<Rightarrow> False)"

text \<open>
  Modelled from the spec: the ingredients of the catalog that the edges of the resolved
  conditions lead to (section 4.5, step 2: ingredient and condition edges only), which is
  not in the sources.
\<close>

definition guide_ingredients :: "entity list \<Rightarrow> claim_edge list \<Rightarrow> entity list \<Rightarrow> entity_ref list" where
  "guide_ingredients catalog store conditions =
     remdups
       (filter (\<lambda>i. is_ingredient i \<and> name_of catalog i \<noteq> None)
         (concat (map (\<lambda>c. map (other_side (e_ref c)) (edgesFor (e_ref c) store)) conditions)))"

text \<open>
  Modelled from the spec: the row of an ingredient in a bucket (section 4.5, steps 3 and
  5), which is not in the sources. \<^verbatim>\<open>affectedDiseases\<close> lists the names of the resolved
  conditions that put the ingredient in the bucket. The specification does not say how
  the scores and rationales of several edges combine; the row takes the highest score and
  the rationale of the first edge.
\<close>

definition guide_row ::
  "string \<Rightarrow> entity list \<Rightarrow> claim_edge list \<Rightarrow> entity list \<Rightarrow> entity_ref \<Rightarrow> guide_item" where
  "guide_row l catalog store conditions i =
     (let cs = flagged_by l store conditions i;
          es = concat (map (\<lambda>c. flagging_edges l store c i) cs)
      in \<lparr>g_ref = i,
          g_food = (case name_of catalog i of Some n \<Rightarrow> n | None \<Rightarrow> []),
          g_reason = (case es of [] \<Rightarrow> [] | e # rest \<Rightarrow> edge_rationale e),
          g_severity = fold max (map edge_evidence es) 0,
          g_affectedDiseases = remdups (map e_name cs)\<rparr>)"

text \<open>
  Modelled from the spec: the order within a bucket (section 4.5, step 4), which is not
  in the sources: evidence score descending, then ingredient name ascending, without
  regard to case.
\<close>

definition by_evidence :: "(string \<Rightarrow> string) \<Rightarrow> guide_item \<Rightarrow> guide_item \<Rightarrow> int" where
  "by_evidence casefold a b =
     (if g_severity a \<noteq> g_severity b then int (g_severity b) - int (g_severity a)
      else if casefold (g_food a) < casefold (g_food b) then - 1
      else if casefold (g_food a) = casefold (g_food b) then 0 else 1)"

text \<open>
  Modelled from the spec: \<^verbatim>\<open>guide(conditionTexts, filter)\<close> (section 4.5), which is not
  in the sources. Avoid dominates beneficial: an ingredient that some resolved condition
  flags as avoid has a row in the avoid bucket only; an ingredient is in the beneficial
  bucket when a resolved condition flags it as benefit and none flags it as avoid. The
  filter is applied last, as in section 4.4; a filter outside the enumeration is
  \<^verbatim>\<open>InvalidFilter\<close>.
\<close>

definition guide ::
  "(string \<Rightarrow> string) \<Rightarrow> entity list \<Rightarrow> claim_edge list \<Rightarrow> string list \<Rightarrow> string
     \<Rightarrow> engine_error + guide_result" where
  "guide casefold catalog store conditionTexts filter' =
     (let conditions = resolved_conditions casefold catalog conditionTexts;
          ingredients = guide_ingredients catalog store conditions;
          avoided = filter (\<lambda>i. flagged_by ''avoid'' store conditions i \<noteq> []) ingredients;
          favored = filter (\<lambda>i. flagged_by ''avoid'' store conditions i = []
                                \<and> flagged_by ''benefit'' store conditions i \<noteq> []) ingredients;
          avoid_bucket = sort_by (by_evidence casefold)
            (map (guide_row ''avoid'' catalog store conditions) avoided);
          beneficial_bucket = sort_by (by_evidence casefold)
            (map (guide_row ''benefit'' catalog store conditions) favored)
      in case checkFilter filter' of
           Inl err \<Rightarrow> Inl err
         | Inr f \<Rightarrow>
             Inr \<lparr>g_diseases = map e_name conditions,
                  g_avoid = (if f = ''beneficial'' then [] else avoid_bucket),
                  g_beneficial = (if f = ''avoid'' then [] else beneficial_bucket)\<rparr>)"

text \<open>A catalog and a store to run the guide on: spinach is avoided for gout and favored for anemia.\<close>

definition example_catalog :: "entity list" where
  "example_catalog =
     [\<lparr>e_ref = Condition 1, e_name = ''Gout'', e_aliases = [''podagra'']\<rparr>,
      \<lparr>e_ref = Condition 2, e_name = ''Anemia'', e_aliases = []\<rparr>,
      \<lparr>e_ref = Ingredient 1, e_name = ''Spinach'', e_aliases = []\<rparr>,
      \<lparr>e_ref = Ingredient 2, e_name = ''Cherry'', e_aliases = []\<rparr>]"

definition example_store :: "claim_edge list" where
  "example_store =
     [\<lparr>side_a = Ingredient 1, side_b = Condition 1, edge_itype = ''avoid'',
       edge_rationale = ''purines'', edge_evidence = 3\<rparr>,
      \<lparr>side_a = Condition 2, side_b = Ingredient 1, edge_itype = ''benefit'',
       edge_rationale = ''iron'', edge_evidence = 4\<rparr>,
      \<lparr>side_a = Ingredient 2, side_b = Condition 1, edge_itype = ''benefit'',
       edge_rationale = ''lowers urate'', edge_evidence = 2\<rparr>]"

definition lower_ascii :: "string \<Rightarrow> string" where
  "lower_ascii s = map (\<lambda>c. if CHR ''A'' \<le> c \<and> c \<le> CHR ''Z'' then char_of (of_char c + (32::nat)) else c) s"

definition example_query :: "string list" where
  "example_query = [''PODAGRA'', ''anemia'', ''flu'']"

definition gout :: entity where
  "gout = \<lparr>e_ref = Condition 1, e_name = ''Gout'', e_aliases = [''podagra'']\<rparr>"

definition anemia :: entity where
  "anemia = \<lparr>e_ref = Condition 2, e_name = ''Anemia'', e_aliases = []\<rparr>"

definition example_guide_result :: guide_result where
  "example_guide_result =
     \<lparr>g_diseases = [''Gout'', ''Anemia''],
      g_avoid =
        [\<lparr>g_ref = Ingredient 1, g_food = ''Spinach'', g_reason = ''purines'', g_severity = 3,
          g_affectedDiseases = [''Gout'']\<rparr>],
      g_beneficial =
        [\<lparr>g_ref = Ingredient 2, g_food = ''Cherry'', g_reason = ''lowers urate'', g_severity = 2,
          g_affectedDiseases = [''Gout'']\<rparr>]\<rparr>"

text \<open>Responses to run the functions on.\<close>

definition example_item :: "string \<Rightarrow> int \<Rightarrow> DiseaseItem" where
  "example_item n s =
     \<lparr>food = Some (js n), ingredient = None, reason = js ''r'', severity = Some s,
      affectedDiseases = Some [js ''gout''], sources = None\<rparr>"

definition example_guide :: DiseaseGuide where
  "example_guide =
     \<lparr>diseases = [js ''gout''],
      avoid = Some [example_item ''apple'' 1, example_item ''Beer'' 5],
      beneficial = Some [example_item ''cherry'' 3]\<rparr>"

definition example_citem :: "string \<Rightarrow> int \<Rightarrow> CompatibilityItem" where
  "example_citem n s =
     \<lparr>c_food = Some (js n), c_reason = js ''r'', c_severity = Some s, c_sources = None\<rparr>"

definition example_response :: CompatibilityResponse where
  "example_response =
     \<lparr>c_ingredient = js ''milk'', c_category = js ''dairy'',
      c_avoid = Some [example_citem ''apple'' 1, example_citem ''Beer'' 5],
      c_beneficial = Some [example_citem ''cherry'' 3]\<rparr>"

section \<open>Properties\<close>

subsection \<open>The tokenizer\<close>

lemma isWhiteSpace_isSeparator: "isWhiteSpace c \<Longrightarrow> isSeparator c"
  by (simp add: isSeparator_def)

lemma dropWhile_none: "\<forall>c\<in>set xs. \<not> P c \<Longrightarrow> dropWhile P xs = xs"
  by (cases xs) auto

lemma trim_no_separator:
  assumes "\<forall>c\<in>set s. \<not> isSeparator c"
  shows "trim s = s"
proof -
  have a: "\<forall>c\<in>set s. \<not> isWhiteSpace c"
    using assms isWhiteSpace_isSeparator by blast
  then have b: "\<forall>c\<in>set (rev s). \<not> isWhiteSpace c" by simp
  show ?thesis
    unfolding trim_def dropWhile_none[OF a] dropWhile_none[OF b] by simp
qed

lemma pieces_not_Nil: "pieces s \<noteq> []"
  by (induction s) (auto split: list.splits)

lemma pieces_no_separator: "p \<in> set (pieces s) \<Longrightarrow> c \<in> set p \<Longrightarrow> \<not> isSeparator c"
proof (induction s arbitrary: p)
  case Nil
  then show ?case by simp
next
  case (Cons a s)
  show ?case
  proof (cases "isSeparator a")
    case True
    with Cons show ?thesis by auto
  next
    case False
    obtain q qs where q: "pieces s = q # qs"
      using pieces_not_Nil[of s] by (cases "pieces s") auto
    with False Cons.prems have "p = a # q \<or> p \<in> set qs" by simp
    then show ?thesis
    proof
      assume "p = a # q"
      with Cons.prems(2) have "c = a \<or> c \<in> set q" by auto
      with False Cons.IH[of q] q show ?thesis by auto
    next
      assume "p \<in> set qs"
      with Cons.IH[of p] q Cons.prems(2) show ?thesis by auto
    qed
  qed
qed

lemma concat_pieces: "concat (pieces s) = filter (\<lambda>c. \<not> isSeparator c) s"
proof (induction s)
  case Nil
  show ?case by simp
next
  case (Cons a s)
  obtain q qs where q: "pieces s = q # qs"
    using pieces_not_Nil[of s] by (cases "pieces s") auto
  with Cons show ?case by simp
qed


lemma length_pieces: "length (pieces s) = Suc (length (filter isSeparator s))"
  by (induction s) (auto split: list.splits simp: pieces_not_Nil)

lemma pieces_dropWhile:
  "filter (\<lambda>t. t \<noteq> []) (pieces (dropWhile isSeparator s)) = filter (\<lambda>t. t \<noteq> []) (pieces s)"
  by (induction s) auto

lemma split_sep_pieces:
  "filter (\<lambda>t. t \<noteq> []) (split_sep cur s) =
   filter (\<lambda>t. t \<noteq> []) ((cur @ hd (pieces s)) # tl (pieces s))"
proof (induction cur s rule: split_sep.induct)
  case (1 cur)
  show ?case by simp
next
  case (2 cur c cs)
  show ?case
  proof (cases "isSeparator c")
    case True
    have "filter (\<lambda>t. t \<noteq> []) (split_sep [] (dropWhile isSeparator cs)) =
          filter (\<lambda>t. t \<noteq> []) (pieces (dropWhile isSeparator cs))"
      using 2(1)[OF True] pieces_not_Nil[of "dropWhile isSeparator cs"]
      by (cases "pieces (dropWhile isSeparator cs)") auto
    with True show ?thesis by (simp add: pieces_dropWhile)
  next
    case False
    with 2(2)[OF False] pieces_not_Nil[of cs] show ?thesis
      by (cases "pieces cs") auto
  qed
qed

lemma split_sep_no_separator:
  "\<forall>c\<in>set cur. \<not> isSeparator c \<Longrightarrow> p \<in> set (split_sep cur s) \<Longrightarrow> c \<in> set p
   \<Longrightarrow> \<not> isSeparator c"
proof (induction cur s arbitrary: p rule: split_sep.induct)
  case (1 cur)
  then show ?case by auto
next
  case (2 cur c' cs)
  show ?case
  proof (cases "isSeparator c'")
    case True
    with 2 show ?thesis by (auto split: if_splits)
  next
    case False
    with 2 show ?thesis by (auto split: if_splits)
  qed
qed

lemma map_trim_split: "map trim (split s) = split s"
proof -
  have "\<forall>p\<in>set (split s). trim p = p"
    using split_sep_no_separator[of "[]" _ s] by (auto simp: split_def intro!: trim_no_separator)
  then show ?thesis by (simp add: map_idI)
qed

lemma map_trim_pieces: "map trim (pieces s) = pieces s"
proof -
  have "\<forall>p\<in>set (pieces s). trim p = p"
    using pieces_no_separator by (auto intro!: trim_no_separator)
  then show ?thesis by (simp add: map_idI)
qed

lemma parts_spec_tokens: "parts s = spec_tokens s"
proof -
  obtain q qs where q: "pieces s = q # qs"
    using pieces_not_Nil[of s] by (cases "pieces s") auto
  have "filter (\<lambda>t. t \<noteq> []) (split s) = filter (\<lambda>t. t \<noteq> []) (pieces s)"
    using split_sep_pieces[of "[]" s] q by (simp add: split_def)
  then show ?thesis
    by (simp add: parts_def spec_tokens_def map_trim_split map_trim_pieces)
qed

lemma dedupe_loop_keep_first:
  "dedupe_loop lower ps seen list =
   list @ keep_first lower (filter (\<lambda>p. lower p \<notin> seen) ps)"
proof (induction ps arbitrary: seen list)
  case Nil
  show ?case by simp
next
  case (Cons p ps)
  have "filter (\<lambda>y. lower y \<noteq> lower p) (filter (\<lambda>q. lower q \<notin> seen) ps) =
        filter (\<lambda>q. lower q \<notin> insert (lower p) seen) ps"
    by (auto intro: filter_cong)
  with Cons show ?case by (simp add: Let_def)
qed

lemma keep_first_set: "set (keep_first key xs) \<subseteq> set xs"
proof (induction key xs rule: keep_first.induct)
  case (1 key)
  show ?case by simp
next
  case (2 key x xs)
  have "set (filter (\<lambda>y. key y \<noteq> key x) xs) \<subseteq> set xs" by simp
  with 2 have "set (keep_first key (filter (\<lambda>y. key y \<noteq> key x) xs)) \<subseteq> set xs"
    by (rule subset_trans)
  then show ?case by auto
qed


lemma keep_first_keys: "key ` set (keep_first key xs) = key ` set xs"
proof (induction key xs rule: keep_first.induct)
  case (1 key)
  show ?case by simp
next
  case (2 key x xs)
  have "key ` set (filter (\<lambda>y. key y \<noteq> key x) xs) = key ` set xs - {key x}"
    by auto
  with 2 have "key ` set (keep_first key (filter (\<lambda>y. key y \<noteq> key x) xs)) = key ` set xs - {key x}"
    by simp
  then show ?case by auto
qed


lemma keep_first_distinct: "distinct (map key (keep_first key xs))"
proof (induction key xs rule: keep_first.induct)
  case (1 key)
  show ?case by simp
next
  case (2 key x xs)
  have "key x \<notin> key ` set (keep_first key (filter (\<lambda>y. key y \<noteq> key x) xs))"
    by (auto simp: keep_first_keys)
  with 2 show ?case by simp
qed

lemma keep_first_subseq: "subseq (keep_first key xs) xs"
proof (induction key xs rule: keep_first.induct)
  case (1 key)
  show ?case by simp
next
  case (2 key x xs)
  have "subseq (filter (\<lambda>y. key y \<noteq> key x) xs) xs" by simp
  with 2 have "subseq (keep_first key (filter (\<lambda>y. key y \<noteq> key x) xs)) xs"
    by (rule subseq_order.order_trans)
  then show ?case by simp
qed

lemma find_filter_other:
  "k' \<noteq> k \<Longrightarrow>
   find (\<lambda>y. key y = k) (filter (\<lambda>y. key y \<noteq> k') xs) = find (\<lambda>y. key y = k) xs"
  by (induction xs) auto

lemma keep_first_find:
  "t \<in> set (keep_first key xs) \<Longrightarrow> find (\<lambda>y. key y = key t) xs = Some t"
proof (induction key xs rule: keep_first.induct)
  case (1 key)
  then show ?case by simp
next
  case (2 key x xs)
  show ?case
  proof (cases "t = x")
    case True
    then show ?thesis by simp
  next
    case False
    with 2(2) have t: "t \<in> set (keep_first key (filter (\<lambda>y. key y \<noteq> key x) xs))" by simp
    have "t \<in> set (filter (\<lambda>y. key y \<noteq> key x) xs)"
      by (rule subsetD[OF keep_first_set t])
    then have ne: "key x \<noteq> key t" by auto
    from 2(1)[OF t] ne show ?thesis by (simp add: find_filter_other)
  qed
qed

text \<open>
  Claim C2. For every input string, \<^verbatim>\<open>parseDiseases\<close> splits on commas and white space,
  trims each token, drops the empty tokens, removes the duplicates up to case (equal
  \<^verbatim>\<open>toLowerCase\<close>) keeping the first occurrence, and preserves the first-seen order.
  The function equals the tokenizer written in the specification's words, for every
  \<^verbatim>\<open>toLowerCase\<close>; the split pieces hold exactly the characters of the input that
  are not separators, one piece more than there are separators; every token returned is
  non-empty, trimmed and free of separators; the lower-case keys of the result are
  distinct and are the keys of all the tokens; the result is a subsequence of the tokens;
  and each token returned is the first token of the input with its key.
\<close>

theorem parseDiseases_tokenizes:
  "parseDiseases toLowerCase input = keep_first toLowerCase (spec_tokens input)
   \<and> concat (pieces input) = filter (\<lambda>c. \<not> isSeparator c) input
   \<and> length (pieces input) = Suc (length (filter isSeparator input))
   \<and> (\<forall>t\<in>set (parseDiseases toLowerCase input).
         t \<noteq> [] \<and> trim t = t \<and> (\<forall>c\<in>set t. \<not> isSeparator c))
   \<and> distinct (map toLowerCase (parseDiseases toLowerCase input))
   \<and> toLowerCase ` set (parseDiseases toLowerCase input) = toLowerCase ` set (spec_tokens input)
   \<and> subseq (parseDiseases toLowerCase input) (spec_tokens input)
   \<and> (\<forall>t\<in>set (parseDiseases toLowerCase input).
         find (\<lambda>y. toLowerCase y = toLowerCase t) (spec_tokens input) = Some t)"
proof -
  have eq: "parseDiseases toLowerCase input = keep_first toLowerCase (spec_tokens input)"
    by (simp add: parseDiseases_def dedupe_loop_keep_first parts_spec_tokens)
  have tok: "t \<noteq> [] \<and> trim t = t \<and> (\<forall>c\<in>set t. \<not> isSeparator c)"
    if "t \<in> set (spec_tokens input)" for t
  proof -
    from that have "t \<in> set (pieces input)" and ne: "t \<noteq> []"
      by (auto simp: spec_tokens_def map_trim_pieces)
    then have "\<forall>c\<in>set t. \<not> isSeparator c"
      using pieces_no_separator by blast
    with ne show ?thesis by (simp add: trim_no_separator)
  qed
  have sub: "t \<in> set (spec_tokens input)"
    if "t \<in> set (keep_first toLowerCase (spec_tokens input))" for t
    by (rule subsetD[OF keep_first_set that])
  have c4: "\<forall>t\<in>set (keep_first toLowerCase (spec_tokens input)).
      t \<noteq> [] \<and> trim t = t \<and> (\<forall>c\<in>set t. \<not> isSeparator c)"
    using tok sub by blast
  have c8: "\<forall>t\<in>set (keep_first toLowerCase (spec_tokens input)).
      find (\<lambda>y. toLowerCase y = toLowerCase t) (spec_tokens input) = Some t"
    by (simp add: keep_first_find)
  show ?thesis
    unfolding eq
    by (intro conjI refl concat_pieces length_pieces c4 keep_first_distinct keep_first_keys
        keep_first_subseq c8)
qed

theorem parseDiseases_tokenizes_witness:
  "parseDiseases ascii_lower (js ''Flu, cold  FLU,,Cold gout '') =
     [js ''Flu'', js ''cold'', js ''gout'']"
proof -
  have "keep_first ascii_lower (spec_tokens (js ''Flu, cold  FLU,,Cold gout '')) =
     [js ''Flu'', js ''cold'', js ''gout'']"
    by code_simp
  with parseDiseases_tokenizes [of ascii_lower "js ''Flu, cold  FLU,,Cold gout ''"]
  show ?thesis by simp
qed

subsection \<open>The filter sent to the API\<close>

text \<open>
  Claim C10. For every filter state of the client (\<^verbatim>\<open>'all'\<close>, \<^verbatim>\<open>'avoid'\<close>,
  \<^verbatim>\<open>'benefit'\<close> or \<^verbatim>\<open>null\<close>) the value that \<^verbatim>\<open>apiFilter\<close> sends is one of
  \<^verbatim>\<open>all\<close>, \<^verbatim>\<open>avoid\<close>, \<^verbatim>\<open>beneficial\<close>: \<^verbatim>\<open>'benefit'\<close> becomes \<^verbatim>\<open>'beneficial'\<close>,
  \<^verbatim>\<open>null\<close> becomes \<^verbatim>\<open>'all'\<close>, every other value is sent as it is, and the engine's
  check of the filter does not answer \<^verbatim>\<open>InvalidFilter\<close>. The step-by-step revision of the
  pairing screen, written with \<^verbatim>\<open>||\<close>, sends the same value.
\<close>

theorem apiFilter_closed:
  assumes "f \<in> set filter_states"
  shows "apiFilter f \<in> set api_filters
    \<and> (f = Some ''benefit'' \<longrightarrow> apiFilter f = ''beneficial'')
    \<and> (f = None \<longrightarrow> apiFilter f = ''all'')
    \<and> (f \<noteq> Some ''benefit'' \<and> f \<noteq> None \<longrightarrow> Some (apiFilter f) = f)
    \<and> checkFilter (apiFilter f) = Inr (apiFilter f)
    \<and> apiFilter_memo f = apiFilter f"
  using assms
  by (auto simp: filter_states_def api_filters_def apiFilter_def apiFilter_memo_def
      checkFilter_def)

theorem apiFilter_closed_witness:
  "apiFilter (Some ''benefit'') = ''beneficial'' \<and> apiFilter None = ''all''
   \<and> apiFilter (Some ''avoid'') = ''avoid'' \<and> apiFilter (Some ''all'') = ''all''
   \<and> checkFilter (apiFilter (Some ''benefit'')) = Inr ''beneficial''"
proof -
  have b: "Some ''benefit'' \<in> set filter_states" and n: "None \<in> set filter_states"
    and a: "Some ''avoid'' \<in> set filter_states" and l: "Some ''all'' \<in> set filter_states"
    by (simp_all add: filter_states_def)
  show ?thesis
    using apiFilter_closed [OF b] apiFilter_closed [OF n] apiFilter_closed [OF a]
      apiFilter_closed [OF l]
    by (simp add: checkFilter_def api_filters_def)
qed


subsection \<open>Sorting and filtering the rows\<close>

lemma mset_insert_by: "mset (insert_by compare x xs) = add_mset x (mset xs)"
  by (induction xs) auto

lemma mset_sort_by: "mset (sort_by compare xs) = mset xs"
  by (induction xs) (auto simp: sort_by_def mset_insert_by)

lemma set_insert_by: "set (insert_by compare x xs) = insert x (set xs)"
  by (induction xs) auto

lemma sorted_insert_by:
  assumes total: "\<And>a b. compare a b \<le> 0 \<or> compare b a \<le> 0"
    and trans: "\<And>a b c. compare a b \<le> 0 \<Longrightarrow> compare b c \<le> 0 \<Longrightarrow> compare a c \<le> 0"
    and sorted: "sorted_wrt (\<lambda>a b. compare a b \<le> 0) xs"
  shows "sorted_wrt (\<lambda>a b. compare a b \<le> 0) (insert_by compare x xs)"
  using sorted
proof (induction xs)
  case Nil
  show ?case by simp
next
  case (Cons y ys)
  show ?case
  proof (cases "compare x y \<le> 0")
    case True
    with Cons.prems trans have "\<forall>z\<in>set ys. compare x z \<le> 0" by auto
    with True Cons.prems show ?thesis by simp
  next
    case False
    with total have "compare y x \<le> 0" by blast
    with False Cons show ?thesis by (auto simp: set_insert_by)
  qed
qed

lemma sorted_sort_by:
  assumes total: "\<And>a b. compare a b \<le> 0 \<or> compare b a \<le> 0"
    and trans: "\<And>a b c. compare a b \<le> 0 \<Longrightarrow> compare b c \<le> 0 \<Longrightarrow> compare a c \<le> 0"
  shows "sorted_wrt (\<lambda>a b. compare a b \<le> 0) (sort_by compare xs)"
proof (induction xs)
  case Nil
  show ?case by (simp add: sort_by_def)
next
  case (Cons x xs)
  have "sort_by compare (x # xs) = insert_by compare x (sort_by compare xs)"
    by (simp add: sort_by_def)
  with sorted_insert_by[of compare "sort_by compare xs" x, OF total trans Cons] show ?case
    by simp
qed

lemma filter_insert_by:
  assumes "\<And>a b. P a \<Longrightarrow> P b \<Longrightarrow> compare a b \<le> 0"
  shows "filter P (insert_by compare x xs) = (if P x then x # filter P xs else filter P xs)"
  using assms by (induction xs) auto

lemma filter_sort_by:
  assumes "\<And>a b. P a \<Longrightarrow> P b \<Longrightarrow> compare a b \<le> 0"
  shows "filter P (sort_by compare xs) = filter P xs"
proof (induction xs)
  case Nil
  show ?case by (simp add: sort_by_def)
next
  case (Cons x xs)
  have "sort_by compare (x # xs) = insert_by compare x (sort_by compare xs)"
    by (simp add: sort_by_def)
  with Cons filter_insert_by[of P compare x "sort_by compare xs", OF assms] show ?case
    by simp
qed

lemma localeCompare_le: "localeCompare collate a b \<le> 0 \<longleftrightarrow> collate a \<le> collate b"
  by (auto simp: localeCompare_def)

lemma byName_le: "byName collate a b \<le> 0 \<longleftrightarrow> collate (nameOf a) \<le> collate (nameOf b)"
  by (simp add: byName_def localeCompare_le)

lemma bySeverity_le:
  "bySeverity collate a b \<le> 0 \<longleftrightarrow> score_then_name scoreOf (\<lambda>r. collate (nameOf r)) a b"
  by (auto simp: bySeverity_def Let_def localeCompare_le score_then_name_def scoreOf_def)

lemma bySeverity_pair_le:
  "bySeverity_pair collate a b \<le> 0 \<longleftrightarrow> score_then_name scoreOf_pair (\<lambda>r. collate (foodOf r)) a b"
  by (auto simp: bySeverity_pair_def Let_def localeCompare_le score_then_name_def scoreOf_pair_def)

lemma score_then_name_total: "score_then_name score name a b \<or> score_then_name score name b a"
  by (auto simp: score_then_name_def)

lemma score_then_name_trans:
  "score_then_name score name a b \<Longrightarrow> score_then_name score name b c \<Longrightarrow> score_then_name score name a c"
  by (auto simp: score_then_name_def)

lemma sorted_byName:
  "sorted_wrt (\<lambda>a b. collate (nameOf a) \<le> collate (nameOf b)) (sort_by (byName collate) xs)"
proof -
  have "sorted_wrt (\<lambda>a b. byName collate a b \<le> 0) (sort_by (byName collate) xs)"
    by (rule sorted_sort_by) (auto simp: byName_le)
  then show ?thesis by (simp add: byName_le)
qed

lemma sorted_bySeverity:
  "sorted_wrt (score_then_name scoreOf (\<lambda>r. collate (nameOf r))) (sort_by (bySeverity collate) xs)"
proof -
  have "sorted_wrt (\<lambda>a b. bySeverity collate a b \<le> 0) (sort_by (bySeverity collate) xs)"
    apply (rule sorted_sort_by)
     apply (simp only: bySeverity_le score_then_name_total)
    apply (simp only: bySeverity_le)
    apply (erule (1) score_then_name_trans)
    done
  then show ?thesis by (simp add: bySeverity_le)
qed

lemma sorted_bySeverity_pair:
  "sorted_wrt (score_then_name scoreOf_pair (\<lambda>r. collate (foodOf r))) (sort_by (bySeverity_pair collate) xs)"
proof -
  have "sorted_wrt (\<lambda>a b. bySeverity_pair collate a b \<le> 0) (sort_by (bySeverity_pair collate) xs)"
    apply (rule sorted_sort_by)
     apply (simp only: bySeverity_pair_le score_then_name_total)
    apply (simp only: bySeverity_pair_le)
    apply (erule (1) score_then_name_trans)
    done
  then show ?thesis by (simp add: bySeverity_pair_le)
qed

lemma stable_byName:
  "filter (\<lambda>r. collate (nameOf r) = k) (sort_by (byName collate) xs) =
   filter (\<lambda>r. collate (nameOf r) = k) xs"
  by (rule filter_sort_by) (simp add: byName_le)

lemma stable_bySeverity:
  "filter (\<lambda>r. scoreOf r = s \<and> collate (nameOf r) = k) (sort_by (bySeverity collate) xs) =
   filter (\<lambda>r. scoreOf r = s \<and> collate (nameOf r) = k) xs"
  by (rule filter_sort_by) (simp add: bySeverity_le score_then_name_def)

lemma stable_bySeverity_pair:
  "filter (\<lambda>r. scoreOf_pair r = s \<and> collate (foodOf r) = k) (sort_by (bySeverity_pair collate) xs) =
   filter (\<lambda>r. scoreOf_pair r = s \<and> collate (foodOf r) = k) xs"
  by (rule filter_sort_by) (simp add: bySeverity_pair_le score_then_name_def)

lemma name_key_eq: "name_key collate = (\<lambda>r. collate (nameOf r))"
  by (simp add: fun_eq_iff name_key_def)

lemma food_key_eq: "food_key collate = (\<lambda>r. collate (foodOf r))"
  by (simp add: fun_eq_iff food_key_def)

lemmas rowsFromResult_defs =
  rowsFromResult_byName_def rowsFromResult_bySeverity_def rowsFromResult_pair_def

text \<open>
  Claim C3, as amended. In the pairing screen and in the revision of the wellness screen
  that compares severities, the rows of each bucket are sorted by severity descending
  (a missing severity counting as 0) and rows of equal severity by name ascending in the
  collation of \<^verbatim>\<open>localeCompare\<close> with base sensitivity. The revision of the
  wellness screen with the recipe card orders each bucket by name only. In each the sort is stable: rows that
  compare equal keep the order of the response, so the order is determined.
\<close>

theorem rowsFromResult_bucket_order:
  "sorted_wrt (score_then_name scoreOf (name_key collate))
     (rowsFromResult_bySeverity collate res (Some ''avoid''))
   \<and> sorted_wrt (score_then_name scoreOf (name_key collate))
     (rowsFromResult_bySeverity collate res (Some ''benefit''))
   \<and> sorted_wrt (score_then_name scoreOf_pair (food_key collate))
     (rowsFromResult_pair collate cres (Some ''avoid''))
   \<and> sorted_wrt (score_then_name scoreOf_pair (food_key collate))
     (rowsFromResult_pair collate cres (Some ''benefit''))
   \<and> sorted_wrt (\<lambda>a b. collate (nameOf a) \<le> collate (nameOf b))
     (rowsFromResult_byName collate res (Some ''avoid''))
   \<and> sorted_wrt (\<lambda>a b. collate (nameOf a) \<le> collate (nameOf b))
     (rowsFromResult_byName collate res (Some ''benefit''))
   \<and> filter (\<lambda>r. scoreOf r = s \<and> collate (nameOf r) = k)
         (rowsFromResult_bySeverity collate res (Some ''avoid'')) =
       filter (\<lambda>r. scoreOf r = s \<and> collate (nameOf r) = k)
         (map (toRow bad) (nullish (avoid res) []))
   \<and> filter (\<lambda>r. scoreOf r = s \<and> collate (nameOf r) = k)
         (rowsFromResult_bySeverity collate res (Some ''benefit'')) =
       filter (\<lambda>r. scoreOf r = s \<and> collate (nameOf r) = k)
         (map (toRow good) (nullish (beneficial res) []))
   \<and> filter (\<lambda>r. scoreOf_pair r = s \<and> collate (foodOf r) = k)
         (rowsFromResult_pair collate cres (Some ''avoid'')) =
       filter (\<lambda>r. scoreOf_pair r = s \<and> collate (foodOf r) = k)
         (map (toPairRow bad) (nullish (c_avoid cres) []))
   \<and> filter (\<lambda>r. scoreOf_pair r = s \<and> collate (foodOf r) = k)
         (rowsFromResult_pair collate cres (Some ''benefit'')) =
       filter (\<lambda>r. scoreOf_pair r = s \<and> collate (foodOf r) = k)
         (map (toPairRow good) (nullish (c_beneficial cres) []))
   \<and> filter (\<lambda>r. collate (nameOf r) = k) (rowsFromResult_byName collate res (Some ''avoid'')) =
       filter (\<lambda>r. collate (nameOf r) = k) (map (toRow bad) (nullish (avoid res) []))
   \<and> filter (\<lambda>r. collate (nameOf r) = k) (rowsFromResult_byName collate res (Some ''benefit'')) =
       filter (\<lambda>r. collate (nameOf r) = k) (map (toRow good) (nullish (beneficial res) []))"
  unfolding rowsFromResult_defs Let_def name_key_eq food_key_eq
  by (simp add: sorted_byName sorted_bySeverity sorted_bySeverity_pair
      stable_byName stable_bySeverity stable_bySeverity_pair)

theorem rowsFromResult_bucket_order_witness:
  "sorted_wrt (score_then_name scoreOf (name_key ascii_lower))
     (rowsFromResult_bySeverity ascii_lower example_guide (Some ''avoid''))
   \<and> map row_name (rowsFromResult_bySeverity ascii_lower example_guide (Some ''avoid'')) =
       [js ''Beer'', js ''apple'']
   \<and> sorted_wrt (score_then_name scoreOf_pair (food_key ascii_lower))
     (rowsFromResult_pair ascii_lower example_response (Some ''avoid''))
   \<and> map foodOf (rowsFromResult_pair ascii_lower example_response (Some ''avoid'')) =
       [js ''Beer'', js ''apple'']
   \<and> map row_name (rowsFromResult_byName ascii_lower example_guide (Some ''avoid'')) =
       [js ''apple'', js ''Beer'']"
proof -
  have "map row_name (rowsFromResult_bySeverity ascii_lower example_guide (Some ''avoid'')) =
       [js ''Beer'', js ''apple'']"
    by code_simp
  moreover have "map foodOf (rowsFromResult_pair ascii_lower example_response (Some ''avoid'')) =
       [js ''Beer'', js ''apple'']"
    by code_simp
  moreover have "map row_name (rowsFromResult_byName ascii_lower example_guide (Some ''avoid'')) =
       [js ''apple'', js ''Beer'']"
    by code_simp
  ultimately show ?thesis
    using rowsFromResult_bucket_order [of ascii_lower example_guide example_response]
    by simp
qed

text \<open>
  The claim as it was stated fails on the revision of the wellness screen with the recipe card: the
  avoid bucket of \<open>example_guide\<close> comes out as apple (severity 1), Beer (severity 5).
\<close>

theorem rowsFromResult_byName_not_by_score:
  "map scoreOf (rowsFromResult_byName ascii_lower example_guide (Some ''avoid'')) = [1, 5]
   \<and> \<not> sorted_wrt (score_then_name scoreOf (name_key ascii_lower))
       (rowsFromResult_byName ascii_lower example_guide (Some ''avoid''))"
  by code_simp

text \<open>
  Claim C4. For every response: with the filter \<^verbatim>\<open>'avoid'\<close> the rows are those of the
  avoid bucket, each marked bad; with the beneficial filter (\<^verbatim>\<open>'benefit'\<close> in the
  client's vocabulary) they are those of the beneficial bucket, each marked good; with
  \<^verbatim>\<open>'all'\<close> (or no filter) they are the beneficial rows followed by the avoid rows.
  This holds in the pairing screen and in both revisions of the wellness screen.
\<close>

theorem rowsFromResult_filter:
  "mset (rowsFromResult_byName collate res (Some ''avoid'')) =
     mset (map (toRow bad) (nullish (avoid res) []))
   \<and> mset (rowsFromResult_byName collate res (Some ''benefit'')) =
     mset (map (toRow good) (nullish (beneficial res) []))
   \<and> rowsFromResult_byName collate res (Some ''all'') =
     rowsFromResult_byName collate res (Some ''benefit'')
       @ rowsFromResult_byName collate res (Some ''avoid'')
   \<and> rowsFromResult_byName collate res None = rowsFromResult_byName collate res (Some ''all'')
   \<and> mset (rowsFromResult_bySeverity collate res (Some ''avoid'')) =
     mset (map (toRow bad) (nullish (avoid res) []))
   \<and> mset (rowsFromResult_bySeverity collate res (Some ''benefit'')) =
     mset (map (toRow good) (nullish (beneficial res) []))
   \<and> rowsFromResult_bySeverity collate res (Some ''all'') =
     rowsFromResult_bySeverity collate res (Some ''benefit'')
       @ rowsFromResult_bySeverity collate res (Some ''avoid'')
   \<and> rowsFromResult_bySeverity collate res None =
     rowsFromResult_bySeverity collate res (Some ''all'')
   \<and> mset (rowsFromResult_pair collate cres (Some ''avoid'')) =
     mset (map (toPairRow bad) (nullish (c_avoid cres) []))
   \<and> mset (rowsFromResult_pair collate cres (Some ''benefit'')) =
     mset (map (toPairRow good) (nullish (c_beneficial cres) []))
   \<and> rowsFromResult_pair collate cres (Some ''all'') =
     rowsFromResult_pair collate cres (Some ''benefit'')
       @ rowsFromResult_pair collate cres (Some ''avoid'')
   \<and> rowsFromResult_pair collate cres None = rowsFromResult_pair collate cres (Some ''all'')
   \<and> map row_kind (rowsFromResult_byName collate res (Some ''avoid'')) =
       replicate (length (nullish (avoid res) [])) bad
   \<and> map row_kind (rowsFromResult_byName collate res (Some ''benefit'')) =
       replicate (length (nullish (beneficial res) [])) good"
proof -
  have kinds: "map row_kind (sort_by compare (map (toRow k) xs)) = replicate (length xs) k"
    for compare k xs
  proof -
    have "set (sort_by compare (map (toRow k) xs)) = set (map (toRow k) xs)"
      by (rule mset_eq_setD[OF mset_sort_by])
    then have "map row_kind (sort_by compare (map (toRow k) xs)) =
        map (\<lambda>r. k) (sort_by compare (map (toRow k) xs))"
      by (intro map_cong refl) (auto simp: toRow_def DiseaseItem.extend_def Row.fields_def)
    moreover have "length (sort_by compare (map (toRow k) xs)) = length xs"
      using mset_eq_length[OF mset_sort_by[of compare "map (toRow k) xs"]] by simp
    ultimately show ?thesis
      by (simp add: map_replicate_const)
  qed
  show ?thesis
    unfolding rowsFromResult_defs Let_def
    by (simp add: mset_sort_by kinds)
qed

theorem rowsFromResult_filter_witness:
  "map row_name (rowsFromResult_bySeverity ascii_lower example_guide (Some ''all'')) =
     [js ''cherry'', js ''Beer'', js ''apple'']
   \<and> map row_kind (rowsFromResult_bySeverity ascii_lower example_guide (Some ''all'')) =
     [good, bad, bad]
   \<and> map row_name (rowsFromResult_bySeverity ascii_lower example_guide (Some ''benefit'')) =
     [js ''cherry'']
   \<and> map row_name (rowsFromResult_bySeverity ascii_lower example_guide (Some ''avoid'')) =
     [js ''Beer'', js ''apple'']"
proof -
  have b: "map row_name (rowsFromResult_bySeverity ascii_lower example_guide (Some ''benefit'')) =
     [js ''cherry'']"
    and bk: "map row_kind (rowsFromResult_bySeverity ascii_lower example_guide (Some ''benefit'')) =
     [good]"
    and a: "map row_name (rowsFromResult_bySeverity ascii_lower example_guide (Some ''avoid'')) =
     [js ''Beer'', js ''apple'']"
    and ak: "map row_kind (rowsFromResult_bySeverity ascii_lower example_guide (Some ''avoid'')) =
     [bad, bad]"
    by code_simp+
  have "rowsFromResult_bySeverity ascii_lower example_guide (Some ''all'') =
     rowsFromResult_bySeverity ascii_lower example_guide (Some ''benefit'')
       @ rowsFromResult_bySeverity ascii_lower example_guide (Some ''avoid'')"
    using rowsFromResult_filter [of ascii_lower example_guide] by blast
  with a ak b bk show ?thesis by simp
qed

text \<open>
  Claim C5. For every response, the rows obtained with the filter \<^verbatim>\<open>'all'\<close> are the
  rows obtained with \<^verbatim>\<open>'avoid'\<close> together with those obtained with the beneficial
  filter, called separately on the same response: as sets and counting repetitions; and
  the bad rows under \<^verbatim>\<open>'all'\<close> are the rows under \<^verbatim>\<open>'avoid'\<close>, the good ones those
  under the beneficial filter.
\<close>

theorem rowsFromResult_filter_round_trip:
  "set (rowsFromResult_byName collate res (Some ''all'')) =
     set (rowsFromResult_byName collate res (Some ''avoid''))
       \<union> set (rowsFromResult_byName collate res (Some ''benefit''))
   \<and> mset (rowsFromResult_byName collate res (Some ''all'')) =
     mset (rowsFromResult_byName collate res (Some ''avoid''))
       + mset (rowsFromResult_byName collate res (Some ''benefit''))
   \<and> set (rowsFromResult_bySeverity collate res (Some ''all'')) =
     set (rowsFromResult_bySeverity collate res (Some ''avoid''))
       \<union> set (rowsFromResult_bySeverity collate res (Some ''benefit''))
   \<and> mset (rowsFromResult_bySeverity collate res (Some ''all'')) =
     mset (rowsFromResult_bySeverity collate res (Some ''avoid''))
       + mset (rowsFromResult_bySeverity collate res (Some ''benefit''))
   \<and> set (rowsFromResult_pair collate cres (Some ''all'')) =
     set (rowsFromResult_pair collate cres (Some ''avoid''))
       \<union> set (rowsFromResult_pair collate cres (Some ''benefit''))
   \<and> mset (rowsFromResult_pair collate cres (Some ''all'')) =
     mset (rowsFromResult_pair collate cres (Some ''avoid''))
       + mset (rowsFromResult_pair collate cres (Some ''benefit''))"
  unfolding rowsFromResult_defs Let_def
  by (auto simp: mset_sort_by)

theorem rowsFromResult_filter_round_trip_witness:
  "set (map row_name (rowsFromResult_byName ascii_lower example_guide (Some ''all''))) =
     {js ''apple'', js ''Beer'', js ''cherry''}"
proof -
  have "map row_name (rowsFromResult_byName ascii_lower example_guide (Some ''avoid'')) =
       [js ''apple'', js ''Beer'']"
    and "map row_name (rowsFromResult_byName ascii_lower example_guide (Some ''benefit'')) =
       [js ''cherry'']"
    by code_simp+
  then have "row_name ` (set (rowsFromResult_byName ascii_lower example_guide (Some ''avoid''))
       \<union> set (rowsFromResult_byName ascii_lower example_guide (Some ''benefit''))) =
     {js ''apple'', js ''Beer'', js ''cherry''}"
    unfolding image_Un by (simp add: insert_commute flip: set_map)
  with rowsFromResult_filter_round_trip [of ascii_lower example_guide]
  show ?thesis by simp
qed


subsection \<open>A response that is not 2xx\<close>

lemma request_failed_not_Nil: "request_failed s \<noteq> []"
  by (simp add: request_failed_def js_def)

lemma readResponse_not_ok:
  "\<not> ok res \<Longrightarrow> readResponse res = Inl (new_Error (surfaced res))"
  by (auto simp: readResponse_def surfaced_def or_string_def nullish_def Let_def
      split: body.splits option.splits)

lemma caught_new_Error: "m \<noteq> [] \<Longrightarrow> caught_message (new_Error m) = m"
  by (simp add: caught_message_def new_Error_def or_string_def nullish_def js_def)

lemma surfaced_not_Nil: "surfaced res \<noteq> []"
  by (auto simp: surfaced_def request_failed_not_Nil split: body.splits option.splits)

lemma settle_not_ok:
  assumes "\<not> ok res"
  shows "errorMsg (settle seg (answering res req) st) = Some (surfaced res)"
    and "result (settle seg (answering res req) st) = None"
    and "loading (settle seg (answering res req) st) = False"
  using assms
  by (simp_all add: settle_def answering_def readResponse_not_ok caught_new_Error surfaced_not_Nil)

text \<open>
  Claim C7, as amended. After a response that is not 2xx the screen shows the
  \<^verbatim>\<open>message\<close> of the error body when it is a non-empty string, and
  \<^verbatim>\<open>Request failed (status)\<close> with the decimal status when the body is absent or
  cannot be parsed, or has no message or an empty one; in each case no result is kept and
  \<^verbatim>\<open>loading\<close> is cleared. This holds for \<^verbatim>\<open>onSearch\<close> of both revisions of the
  wellness screen and of the pairing screen, whenever the search sends a request.
\<close>

theorem onSearch_failure:
  assumes "\<not> ok res" and "trim (query st) \<noteq> []" and "trim (query wst) \<noteq> []"
    and "parseDiseases toLowerCase (trim (query st)) \<noteq> []"
    and "parseDiseases toLowerCase (trim (query wst)) \<noteq> []"
  shows "errorMsg (onSearch_wellness toLowerCase (answering res) wst) = Some (surfaced res)
    \<and> result (onSearch_wellness toLowerCase (answering res) wst) = None
    \<and> loading (onSearch_wellness toLowerCase (answering res) wst) = False
    \<and> errorMsg (onSearch_wellness_plain toLowerCase (answering res) st) = Some (surfaced res)
    \<and> result (onSearch_wellness_plain toLowerCase (answering res) st) = None
    \<and> loading (onSearch_wellness_plain toLowerCase (answering res) st) = False
    \<and> errorMsg (onSearch_pair toLowerCase (answering res) st) = Some (surfaced res)
    \<and> result (onSearch_pair toLowerCase (answering res) st) = None
    \<and> loading (onSearch_pair toLowerCase (answering res) st) = False
    \<and> (\<forall>m d. body res = Parsed (Some m) d \<and> m \<noteq> [] \<longrightarrow> surfaced res = m)
    \<and> (\<forall>e. body res = Unparseable e \<longrightarrow> surfaced res = request_failed (status res))
    \<and> (\<forall>d. body res = Parsed None d \<or> body res = Parsed (Some []) d
          \<longrightarrow> surfaced res = request_failed (status res))"
proof -
  have s: "(\<forall>m d. body res = Parsed (Some m) d \<and> m \<noteq> [] \<longrightarrow> surfaced res = m)
    \<and> (\<forall>e. body res = Unparseable e \<longrightarrow> surfaced res = request_failed (status res))
    \<and> (\<forall>d. body res = Parsed None d \<or> body res = Parsed (Some []) d
          \<longrightarrow> surfaced res = request_failed (status res))"
    by (auto simp: surfaced_def)
  show ?thesis
    using assms(2-5) s
    by (simp add: onSearch_wellness_def onSearch_wellness_plain_def onSearch_pair_def Let_def
        settle_not_ok[OF assms(1)])
qed


theorem onSearch_failure_witness:
  "errorMsg (onSearch_wellness ascii_lower (answering not_found) example_state) =
     Some (js ''No such condition'')
   \<and> errorMsg (onSearch_pair ascii_lower (answering unavailable) example_state) =
     Some (js ''Request failed (503)'')
   \<and> result (onSearch_wellness ascii_lower (answering not_found) example_state) = None"
proof -
  have q: "trim (query example_state) \<noteq> []"
    and d: "parseDiseases ascii_lower (trim (query example_state)) \<noteq> []"
    and n: "\<not> ok not_found" and u: "\<not> ok unavailable"
    and sn: "surfaced not_found = js ''No such condition''"
    and su: "surfaced unavailable = js ''Request failed (503)''"
    by code_simp+
  show ?thesis
    using onSearch_failure [OF n q q d d] onSearch_failure [OF u q q d d] sn su
    by simp
qed

text \<open>
  The claim as it was stated fails when the error body carries an empty message: the
  screen shows the generic text, not the message of the body.
\<close>

theorem onSearch_empty_message:
  "\<not> ok empty_message \<and> body empty_message = Parsed (Some []) 0
   \<and> errorMsg (onSearch_wellness ascii_lower (answering empty_message) example_state) =
       Some (js ''Request failed (500)'')"
  by code_simp


subsection \<open>The constraints of the schema\<close>

lemma violated_Nil: "violated cs = [] \<longleftrightarrow> list_all snd cs"
  by (induction cs) (auto simp: violated_def)

lemma run_invariant:
  assumes "P d" and "\<And>d s d'. P d \<Longrightarrow> exec d s = Inr d' \<Longrightarrow> P d'"
  shows "P (run exec d ss)"
  using assms(1)
proof (induction ss arbitrary: d)
  case Nil
  then show ?case by simp
next
  case (Cons s ss)
  show ?case
  proof (cases "exec d s")
    case (Inl e)
    with Cons show ?thesis by simp
  next
    case (Inr d')
    with Cons assms(2)[of d s d'] show ?thesis by simp
  qed
qed

lemma fresh_apply_dml: "fresh t \<Longrightarrow> fresh (apply_dml t s)"
proof (cases s)
  case (Insert c)
  assume "fresh t"
  then have "list_all (\<lambda>(i, c). i < next_id t + 1) (rows t)"
    by (auto simp: fresh_def list_all_iff)
  with Insert show ?thesis by (simp add: fresh_def)
next
  case (Update k c)
  assume "fresh t"
  with Update show ?thesis by (fastforce simp: fresh_def list_all_iff split: if_splits)
next
  case (Delete k)
  assume "fresh t"
  with Delete show ?thesis by (auto simp: fresh_def list_all_iff)
qed

lemma fresh_effect:
  "fresh (interaction d) \<Longrightarrow> fresh (source d) \<Longrightarrow>
   fresh (interaction (effect d s)) \<and> fresh (source (effect d s))"
  by (cases s) (simp_all add: fresh_apply_dml)

lemma exec_uq_Inr:
  "exec_uq d s = Inr d' \<Longrightarrow> d' = effect d s \<and> violated (constraints_uq d') = []"
  by (cases s) (auto simp: exec_uq_def split: list.splits)

lemma exec_ev_Inr:
  "exec_ev d s = Inr d' \<Longrightarrow> d' = effect d s \<and> violated (constraints_ev d') = []"
  by (auto simp: exec_ev_def split: list.splits)

lemma consistent_exec_uq:
  assumes c: "consistent constraints_uq d" and e: "exec_uq d s = Inr d'"
  shows "consistent constraints_uq d'"
proof -
  from exec_uq_Inr[OF e] have d': "d' = effect d s" and v: "violated (constraints_uq d') = []"
    by blast+
  from c fresh_effect[of d s] have "fresh (interaction d') \<and> fresh (source d')"
    unfolding d' by (simp add: consistent_def)
  with v show ?thesis by (simp add: consistent_def)
qed

lemma consistent_exec_ev:
  assumes c: "consistent constraints_ev d" and e: "exec_ev d s = Inr d'"
  shows "consistent constraints_ev d'"
proof -
  from exec_ev_Inr[OF e] have d': "d' = effect d s" and v: "violated (constraints_ev d') = []"
    by blast+
  from c fresh_effect[of d s] have "fresh (interaction d') \<and> fresh (source d')"
    unfolding d' by (simp add: consistent_def)
  with v show ?thesis by (simp add: consistent_def)
qed

lemma consistent_migrated_uq: "consistent constraints_uq migrated_uq"
  by (simp add: consistent_def violated_Nil constraints_uq_def migrated_uq_def empty_table_def
      fresh_def interaction_columns_def source_constraints_def not_null_def unique_key_def
      List.map_filter_simps)

lemma consistent_migrated_ev: "consistent constraints_ev migrated_ev"
  by (simp add: consistent_def violated_Nil constraints_ev_def migrated_ev_def empty_table_def
      fresh_def interaction_columns_def source_constraints_def not_null_def unique_key_def
      List.map_filter_simps fits_def)

lemma consistent_run_uq: "consistent constraints_uq (run exec_uq migrated_uq ss)"
  by (rule run_invariant[where P = "consistent constraints_uq"])
     (auto intro: consistent_migrated_uq consistent_exec_uq)

lemma consistent_run_ev: "consistent constraints_ev (run exec_ev migrated_ev ss)"
  by (rule run_invariant[where P = "consistent constraints_ev"])
     (auto intro: consistent_migrated_ev consistent_exec_ev)

lemma unique_keyD:
  assumes "unique_key key rs" and "distinct (map fst rs)"
    and "(i, r) \<in> set rs" and "(j, q) \<in> set rs" and "i \<noteq> j" and "key r = Some k"
  shows "key q \<noteq> Some k"
  using assms
proof (induction rs)
  case Nil
  then show ?case by simp
next
  case (Cons x rs)
  obtain n c where x: "x = (n, c)" by (cases x)
  have tail: "unique_key key rs" "distinct (map fst rs)"
    using Cons.prems(1,2) by (auto simp: unique_key_def List.map_filter_simps split: option.splits)
  have notin: "key c = Some k \<Longrightarrow> (m, p) \<in> set rs \<Longrightarrow> key p \<noteq> Some k" for m p
  proof
    assume a: "key c = Some k" "(m, p) \<in> set rs" "key p = Some k"
    then have "k \<in> set (List.map_filter (\<lambda>(i, c). key c) rs)"
      by (force simp: List.map_filter_def)
    with a(1) Cons.prems(1) x show False
      by (simp add: unique_key_def List.map_filter_simps)
  qed
  consider "(i, r) = x" "(j, q) \<in> set rs" | "(j, q) = x" "(i, r) \<in> set rs"
    | "(i, r) \<in> set rs" "(j, q) \<in> set rs"
    using Cons.prems(3,4,5) by auto
  then show ?case
  proof cases
    case 1
    with x Cons.prems(6) notin[of j q] show ?thesis by auto
  next
    case 2
    with x Cons.prems(6) notin[of i r] show ?thesis by auto
  next
    case 3
    with Cons.IH[OF tail] Cons.prems(5,6) show ?thesis by simp
  qed
qed


lemma consistent_uqD:
  assumes "consistent constraints_uq d"
  shows "unique_key interaction_key (rows (interaction d))"
    and "distinct (map fst (rows (interaction d)))"
    and "not_null a_type (rows (interaction d))" and "not_null a_id (rows (interaction d))"
    and "not_null b_type (rows (interaction d))" and "not_null b_id (rows (interaction d))"
    and "list_all snd (source_constraints (rows (source d)))"
    and "fresh (source d)"
  using assms
  by (simp_all add: consistent_def violated_Nil constraints_uq_def interaction_columns_def)

lemma consistent_evD:
  assumes "consistent constraints_ev d"
  shows "not_null evidence (rows (interaction d))"
    and "list_all (\<lambda>(i, c). check_holds (sql_between (evidence c) 0 5)) (rows (interaction d))"
    and "list_all (\<lambda>(i, c). evidence c = None \<or> evidence c \<in> set (map level_score (evidence_level d)))
             (rows (interaction d))"
    and "list_all snd (source_constraints (rows (source d)))"
    and "fresh (source d)"
  using assms
  by (simp_all add: consistent_def violated_Nil constraints_ev_def interaction_columns_def)

lemma evidence_checked:
  assumes "violated (constraints_ev d) = []" and "(i, r) \<in> set (rows (interaction d))"
  shows "\<exists>e. evidence r = Some e \<and> 0 \<le> e \<and> e \<le> 5
    \<and> Some e \<in> set (map level_score (evidence_level d))"
proof -
  from assms have "evidence r \<noteq> None"
    and "check_holds (sql_between (evidence r) 0 5)"
    and "evidence r = None \<or> evidence r \<in> set (map level_score (evidence_level d))"
    by (auto simp: violated_Nil constraints_ev_def not_null_def list_all_iff)
  then show ?thesis
    by (cases "evidence r") (auto simp: check_holds_def sql_between_def)
qed

lemma source_urls_differ:
  assumes "list_all snd (source_constraints rs)"
    and "(i, r) \<in> set rs" and "(j, q) \<in> set rs" and "i \<noteq> j"
    and "src_url r \<noteq> None" and "src_url q \<noteq> None"
  shows "src_url r \<noteq> src_url q"
proof -
  from assms(1) have u: "unique_key src_url rs" and d: "distinct (map fst rs)"
    by (simp_all add: source_constraints_def)
  from assms(5) obtain k where k: "src_url r = Some k" by auto
  from unique_keyD[OF u d assms(2,3,4) k] k show ?thesis by simp
qed

lemma source_insert_unlinked:
  assumes "list_all snd (source_constraints rs)" and "list_all (\<lambda>(i, c). i < n) rs"
    and "unlinked c"
  shows "list_all snd (source_constraints (rs @ [(n, c)]))"
proof -
  from assms(2) have "n \<notin> fst ` set rs" by (auto simp: list_all_iff)
  moreover from assms(3) have "src_label c \<noteq> None" "src_url c = None"
    and "fits 32 (year c)"
    and "check_holds (case year c of None \<Rightarrow> Some True | Some y \<Rightarrow> sql_between (Some y) 1000 9999)"
    by (auto simp: unlinked_def fits_def check_holds_def sql_between_def split: option.splits)
  ultimately show ?thesis
    using assms(1)
    by (simp add: source_constraints_def not_null_def unique_key_def List.map_filter_def)
qed

lemma not_nullD: "not_null col rs \<Longrightarrow> (i, r) \<in> set rs \<Longrightarrow> col r \<noteq> None"
  by (auto simp: not_null_def list_all_iff)

text \<open>
  Claim C6, as amended. In the revision of the schema that declares
  \<^verbatim>\<open>uq_interaction\<close>, after any statements, two rows of \<^verbatim>\<open>interaction\<close> whose
  \<^verbatim>\<open>itype\<close> is not null differ on \<^verbatim>\<open>(a_type, a_id, b_type, b_id, itype)\<close>. Rows with
  a null \<^verbatim>\<open>itype\<close> are not constrained, and the revision with evidence levels declares no
  such constraint.
\<close>

theorem uq_interaction_distinct:
  "\<forall>(i, r)\<in>set (rows (interaction (run exec_uq migrated_uq ss))).
     \<forall>(j, q)\<in>set (rows (interaction (run exec_uq migrated_uq ss))).
       i \<noteq> j \<and> itype r \<noteq> None \<and> itype q \<noteq> None \<longrightarrow>
       (a_type r, a_id r, b_type r, b_id r, itype r) \<noteq> (a_type q, a_id q, b_type q, b_id q, itype q)"
proof -
  let ?rs = "rows (interaction (run exec_uq migrated_uq ss))"
  note c = consistent_uqD[OF consistent_run_uq[of ss]]
  have "(a_type r, a_id r, b_type r, b_id r, itype r) \<noteq> (a_type q, a_id q, b_type q, b_id q, itype q)"
    if r: "(i, r) \<in> set ?rs" and q: "(j, q) \<in> set ?rs" and ne: "i \<noteq> j"
      and tr: "itype r \<noteq> None" and tq: "itype q \<noteq> None" for i r j q
  proof
    assume eq: "(a_type r, a_id r, b_type r, b_id r, itype r) = (a_type q, a_id q, b_type q, b_id q, itype q)"
    from r c(3-6) have "a_type r \<noteq> None" "a_id r \<noteq> None" "b_type r \<noteq> None" "b_id r \<noteq> None"
      by (auto dest: not_nullD)
    with tr obtain k where k: "interaction_key r = Some k"
      by (auto simp: interaction_key_def)
    with eq have "interaction_key q = Some k"
      by (simp add: interaction_key_def)
    with unique_keyD[OF c(1,2) r q ne k] show False by simp
  qed
  then show ?thesis by blast
qed

theorem uq_interaction_distinct_witness:
  "map snd (rows (interaction (run exec_uq migrated_uq duplicate_edges))) =
     [edge (Some ''avoid''), edge (Some ''benefit'')]
   \<and> exec_uq (run exec_uq migrated_uq duplicate_edges) (Interaction (Insert (edge (Some ''benefit'')))) =
     Inl (Violates ''uq_interaction'')"
proof -
  have "map snd (rows (interaction (run exec_uq migrated_uq duplicate_edges))) =
     [edge (Some ''avoid''), edge (Some ''benefit'')]"
    and "exec_uq (run exec_uq migrated_uq duplicate_edges) (Interaction (Insert (edge (Some ''benefit'')))) =
     Inl (Violates ''uq_interaction'')"
    by code_simp+
  then show ?thesis
    using uq_interaction_distinct [of duplicate_edges] by simp
qed

text \<open>
  The claim as it was stated fails: two rows with a null \<^verbatim>\<open>itype\<close> and the same pair
  are both stored, and in the revision with evidence levels so are two rows with the same
  pair and the same label.
\<close>

theorem uq_interaction_duplicates:
  "map snd (rows (interaction (run exec_uq migrated_uq null_edges))) = [edge None, edge None]
   \<and> map snd (rows (interaction (run exec_ev migrated_ev duplicate_edges_ev))) =
     [edge_ev (Some ''avoid'') (Some 3), edge_ev (Some ''avoid'') (Some 3)]"
  by code_simp

text \<open>
  Claim C8. In the revision of the schema with evidence levels, after any statements,
  the evidence of every row of \<^verbatim>\<open>interaction\<close> is an integer between 0 and 5 that is
  the score of a row of \<^verbatim>\<open>evidence_level\<close>; an \<^verbatim>\<open>INSERT\<close> is carried out only with
  an evidence in that range, and so is an \<^verbatim>\<open>UPDATE\<close> of a row that exists.
\<close>

theorem evidence_in_range:
  "(\<forall>(i, r)\<in>set (rows (interaction (run exec_ev migrated_ev ss))).
      \<exists>e. evidence r = Some e \<and> 0 \<le> e \<and> e \<le> 5
        \<and> Some e \<in> set (map level_score (evidence_level (run exec_ev migrated_ev ss))))
   \<and> (\<forall>c d'. exec_ev (run exec_ev migrated_ev ss) (Interaction (Insert c)) = Inr d' \<longrightarrow>
        (\<exists>e. evidence c = Some e \<and> 0 \<le> e \<and> e \<le> 5))
   \<and> (\<forall>k c d'. exec_ev (run exec_ev migrated_ev ss) (Interaction (Update k c)) = Inr d'
        \<and> k \<in> fst ` set (rows (interaction (run exec_ev migrated_ev ss))) \<longrightarrow>
        (\<exists>e. evidence c = Some e \<and> 0 \<le> e \<and> e \<le> 5))"
proof -
  let ?D = "run exec_ev migrated_ev ss"
  have v: "violated (constraints_ev ?D) = []"
    using consistent_run_ev[of ss] by (simp add: consistent_def)
  have stored: "\<forall>(i, r)\<in>set (rows (interaction ?D)).
      \<exists>e. evidence r = Some e \<and> 0 \<le> e \<and> e \<le> 5
        \<and> Some e \<in> set (map level_score (evidence_level ?D))"
    using evidence_checked[OF v] by blast
  have ins: "\<exists>e. evidence c = Some e \<and> 0 \<le> e \<and> e \<le> 5"
    if "exec_ev ?D (Interaction (Insert c)) = Inr d'" for c d'
  proof -
    from exec_ev_Inr[OF that] have d': "d' = effect ?D (Interaction (Insert c))"
      and v': "violated (constraints_ev d') = []" by blast+
    have "(next_id (interaction ?D), c) \<in> set (rows (interaction d'))"
      unfolding d' by simp
    from evidence_checked[OF v' this] show ?thesis by blast
  qed
  have upd: "\<exists>e. evidence c = Some e \<and> 0 \<le> e \<and> e \<le> 5"
    if "exec_ev ?D (Interaction (Update k c)) = Inr d'"
      and "k \<in> fst ` set (rows (interaction ?D))" for k c d'
  proof -
    from exec_ev_Inr[OF that(1)] have d': "d' = effect ?D (Interaction (Update k c))"
      and v': "violated (constraints_ev d') = []" by blast+
    from that(2) have "(k, c) \<in> set (rows (interaction d'))"
      unfolding d' by force
    from evidence_checked[OF v' this] show ?thesis by blast
  qed
  from stored ins upd show ?thesis by blast
qed

theorem evidence_in_range_witness:
  "map (\<lambda>(i, r). evidence r) (rows (interaction (run exec_ev migrated_ev graded_edges))) =
     [Some 3, Some 0]
   \<and> exec_ev migrated_ev (Interaction (Insert (edge_ev (Some ''avoid'') (Some 6)))) =
       Inl (Violates ''chk_interaction_evidence'')
   \<and> exec_ev migrated_ev (Interaction (Insert (edge_ev (Some ''avoid'') None))) =
       Inl (Violates ''interaction.evidence NOT NULL'')
   \<and> exec_ev (run exec_ev migrated_ev graded_edges) (Evidence_level (Delete 3)) =
       Inl (Violates ''interaction_evidence_fkey'')"
proof -
  have "map (\<lambda>(i, r). evidence r) (rows (interaction (run exec_ev migrated_ev graded_edges))) =
     [Some 3, Some 0]"
    and "exec_ev migrated_ev (Interaction (Insert (edge_ev (Some ''avoid'') (Some 6)))) =
       Inl (Violates ''chk_interaction_evidence'')"
    and "exec_ev migrated_ev (Interaction (Insert (edge_ev (Some ''avoid'') None))) =
       Inl (Violates ''interaction.evidence NOT NULL'')"
    and "exec_ev (run exec_ev migrated_ev graded_edges) (Evidence_level (Delete 3)) =
       Inl (Violates ''interaction_evidence_fkey'')"
    by code_simp+
  then show ?thesis
    using evidence_in_range [of graded_edges] by simp
qed

text \<open>
  Claim C9. In both revisions of the schema, after any statements, two rows of
  \<^verbatim>\<open>source\<close> whose \<^verbatim>\<open>url\<close> is not null have different urls; and a row with a null
  \<^verbatim>\<open>url\<close> (a label, and a year that is null or between 1000 and 9999) is always
  inserted, whatever rows with a null \<^verbatim>\<open>url\<close> the table has.
\<close>

theorem source_url_unique:
  "(\<forall>(i, r)\<in>set (rows (source (run exec_uq migrated_uq ss))).
      \<forall>(j, q)\<in>set (rows (source (run exec_uq migrated_uq ss))).
        i \<noteq> j \<and> src_url r \<noteq> None \<and> src_url q \<noteq> None \<longrightarrow> src_url r \<noteq> src_url q)
   \<and> (\<forall>(i, r)\<in>set (rows (source (run exec_ev migrated_ev ss'))).
      \<forall>(j, q)\<in>set (rows (source (run exec_ev migrated_ev ss'))).
        i \<noteq> j \<and> src_url r \<noteq> None \<and> src_url q \<noteq> None \<longrightarrow> src_url r \<noteq> src_url q)
   \<and> (unlinked c \<longrightarrow>
        exec_uq (run exec_uq migrated_uq ss) (Source (Insert c)) =
          Inr (effect (run exec_uq migrated_uq ss) (Source (Insert c))))
   \<and> (unlinked c \<longrightarrow>
        exec_ev (run exec_ev migrated_ev ss') (Source (Insert c)) =
          Inr (effect (run exec_ev migrated_ev ss') (Source (Insert c))))
   \<and> rows (source (effect d (Source (Insert c)))) = rows (source d) @ [(next_id (source d), c)]"
proof -
  let ?U = "run exec_uq migrated_uq ss" and ?E = "run exec_ev migrated_ev ss'"
  note u = consistent_uqD[OF consistent_run_uq[of ss]]
  note e = consistent_evD[OF consistent_run_ev[of ss']]
  have 1: "\<forall>(i, r)\<in>set (rows (source ?U)). \<forall>(j, q)\<in>set (rows (source ?U)).
        i \<noteq> j \<and> src_url r \<noteq> None \<and> src_url q \<noteq> None \<longrightarrow> src_url r \<noteq> src_url q"
    using source_urls_differ[OF u(7)] by blast
  have 2: "\<forall>(i, r)\<in>set (rows (source ?E)). \<forall>(j, q)\<in>set (rows (source ?E)).
        i \<noteq> j \<and> src_url r \<noteq> None \<and> src_url q \<noteq> None \<longrightarrow> src_url r \<noteq> src_url q"
    using source_urls_differ[OF e(4)] by blast
  have 3: "exec_uq ?U (Source (Insert c)) = Inr (effect ?U (Source (Insert c)))" if "unlinked c"
  proof -
    have "list_all snd (source_constraints (rows (source ?U) @ [(next_id (source ?U), c)]))"
      using source_insert_unlinked[OF u(7) _ that] u(8) by (simp add: fresh_def)
    moreover have "violated (constraints_uq ?U) = []"
      using consistent_run_uq[of ss] by (simp add: consistent_def)
    ultimately have "violated (constraints_uq (effect ?U (Source (Insert c)))) = []"
      by (simp add: violated_Nil constraints_uq_def)
    then show ?thesis by (simp add: exec_uq_def)
  qed
  have 4: "exec_ev ?E (Source (Insert c)) = Inr (effect ?E (Source (Insert c)))" if "unlinked c"
  proof -
    have "list_all snd (source_constraints (rows (source ?E) @ [(next_id (source ?E), c)]))"
      using source_insert_unlinked[OF e(4) _ that] e(5) by (simp add: fresh_def)
    moreover have "violated (constraints_ev ?E) = []"
      using consistent_run_ev[of ss'] by (simp add: consistent_def)
    ultimately have "violated (constraints_ev (effect ?E (Source (Insert c)))) = []"
      by (simp add: violated_Nil constraints_ev_def)
    then show ?thesis by (simp add: exec_ev_def)
  qed
  from 1 2 3 4 show ?thesis by simp
qed

theorem source_url_unique_witness:
  "map (\<lambda>(i, r). src_url r) (rows (source (run exec_uq migrated_uq citations))) =
     [Some ''https://who.int/a'', None, None]
   \<and> map (\<lambda>(i, r). src_url r) (rows (source (run exec_ev migrated_ev citations))) =
     [Some ''https://who.int/a'', None, None]
   \<and> exec_uq (run exec_uq migrated_uq citations) (Source (Insert (citation None))) =
       Inr (effect (run exec_uq migrated_uq citations) (Source (Insert (citation None))))"
proof -
  have "map (\<lambda>(i, r). src_url r) (rows (source (run exec_uq migrated_uq citations))) =
     [Some ''https://who.int/a'', None, None]"
    and "map (\<lambda>(i, r). src_url r) (rows (source (run exec_ev migrated_ev citations))) =
     [Some ''https://who.int/a'', None, None]"
    and "unlinked (citation None)"
    by code_simp+
  then show ?thesis
    using source_url_unique [of citations citations "citation None"] by simp
qed


subsection \<open>The condition guide\<close>

lemma set_sort_by: "set (sort_by compare xs) = set xs"
  by (rule mset_eq_setD[OF mset_sort_by])

lemma g_ref_guide_row: "g_ref (guide_row l catalog store conditions i) = i"
  by (simp add: guide_row_def Let_def)

lemma affected_guide_row:
  "g_affectedDiseases (guide_row l catalog store conditions i) =
   remdups (map e_name (flagged_by l store conditions i))"
  by (simp add: guide_row_def Let_def)

lemma guide_Inr:
  assumes "guide casefold catalog store texts f = Inr res"
  shows "set (g_beneficial res) \<subseteq>
      guide_row ''benefit'' catalog store (resolved_conditions casefold catalog texts) `
        {i. flagged_by ''avoid'' store (resolved_conditions casefold catalog texts) i = []}"
    and "f = ''all'' \<Longrightarrow> mset (g_avoid res) =
      mset (map (guide_row ''avoid'' catalog store (resolved_conditions casefold catalog texts))
        (filter (\<lambda>i. flagged_by ''avoid'' store (resolved_conditions casefold catalog texts) i \<noteq> [])
          (guide_ingredients catalog store (resolved_conditions casefold catalog texts))))"
  using assms
  by (auto simp: guide_def Let_def set_sort_by mset_sort_by checkFilter_def api_filters_def
      split: sum.splits if_splits)

lemma flagged_ingredient:
  assumes "A \<in> set conditions" and "flagging_edges l store A i \<noteq> []"
    and "is_ingredient i" and "name_of catalog i \<noteq> None"
  shows "i \<in> set (guide_ingredients catalog store conditions)"
    and "A \<in> set (flagged_by l store conditions i)"
proof -
  from assms(2) obtain e where "e \<in> set (flagging_edges l store A i)"
    by (cases "flagging_edges l store A i") auto
  then have "e \<in> set (edgesFor (e_ref A) store)" and "other_side (e_ref A) e = i"
    by (auto simp: flagging_edges_def)
  then have "i \<in> other_side (e_ref A) ` set (edgesFor (e_ref A) store)"
    by blast
  with assms(1) have "\<exists>c\<in>set conditions. i \<in> other_side (e_ref c) ` set (edgesFor (e_ref c) store)"
    by blast
  with assms(3,4) show "i \<in> set (guide_ingredients catalog store conditions)"
    by (simp add: guide_ingredients_def)
  from assms(1,2) show "A \<in> set (flagged_by l store conditions i)"
    by (simp add: flagged_by_def)
qed

lemma length_filter_eq_one:
  "distinct xs \<Longrightarrow> x \<in> set xs \<Longrightarrow> length (filter (\<lambda>j. j = x) xs) = 1"
proof (induction xs)
  case Nil
  then show ?case by simp
next
  case (Cons a xs)
  show ?case
  proof (cases "a = x")
    case True
    with Cons.prems have "filter (\<lambda>j. j = x) xs = []"
      by (auto simp: filter_empty_conv)
    with True show ?thesis by simp
  next
    case False
    with Cons show ?thesis by simp
  qed
qed

text \<open>
  Claim C1. For every guide query with the filter \<^verbatim>\<open>'all'\<close> and every ingredient of
  the catalog that a resolved condition \<open>A\<close> flags as avoid (whatever the other resolved
  conditions say of it, beneficial included): the ingredient has no row in the beneficial
  bucket, it has exactly one row in the avoid bucket, and the \<^verbatim>\<open>affectedDiseases\<close> of
  that row contain the name of \<open>A\<close>, so of every condition that flags it as avoid. The
  guide is the one modelled from the specification.
\<close>

theorem guide_avoid_dominates:
  assumes "guide casefold catalog store texts ''all'' = Inr res"
    and "A \<in> set (resolved_conditions casefold catalog texts)"
    and "flagging_edges ''avoid'' store A i \<noteq> []"
    and "is_ingredient i" and "name_of catalog i \<noteq> None"
  shows "i \<notin> g_ref ` set (g_beneficial res)
    \<and> (\<exists>row\<in>set (g_avoid res). g_ref row = i)
    \<and> (\<forall>row\<in>set (g_avoid res). g_ref row = i \<longrightarrow> e_name A \<in> set (g_affectedDiseases row))
    \<and> length (filter (\<lambda>row. g_ref row = i) (g_avoid res)) = 1"
proof -
  let ?cs = "resolved_conditions casefold catalog texts"
  let ?avoided = "filter (\<lambda>i. flagged_by ''avoid'' store ?cs i \<noteq> []) (guide_ingredients catalog store ?cs)"
  note fl = flagged_ingredient[OF assms(2,3,4,5)]
  from fl(2) have ne: "flagged_by ''avoid'' store ?cs i \<noteq> []" by auto
  have b: "i \<notin> g_ref ` set (g_beneficial res)"
    using guide_Inr(1)[OF assms(1)] ne by (auto simp: g_ref_guide_row)
  have m: "mset (g_avoid res) = mset (map (guide_row ''avoid'' catalog store ?cs) ?avoided)"
    using guide_Inr(2)[OF assms(1)] by simp
  then have s: "set (g_avoid res) = guide_row ''avoid'' catalog store ?cs ` set ?avoided"
    using mset_eq_setD by fastforce
  have i: "i \<in> set ?avoided" using fl(1) ne by simp
  have ex: "\<exists>row\<in>set (g_avoid res). g_ref row = i"
    unfolding s using i by (auto simp: g_ref_guide_row)
  have aff: "\<forall>row\<in>set (g_avoid res). g_ref row = i \<longrightarrow> e_name A \<in> set (g_affectedDiseases row)"
    unfolding s using fl(2) by (auto simp: g_ref_guide_row affected_guide_row)
  have d: "distinct ?avoided" by (simp add: guide_ingredients_def)
  have "mset (filter (\<lambda>row. g_ref row = i) (g_avoid res)) =
        mset (filter (\<lambda>row. g_ref row = i) (map (guide_row ''avoid'' catalog store ?cs) ?avoided))"
    using m by (simp only: mset_filter)
  then have "length (filter (\<lambda>row. g_ref row = i) (g_avoid res)) =
        length (filter (\<lambda>row. g_ref row = i) (map (guide_row ''avoid'' catalog store ?cs) ?avoided))"
    by (rule mset_eq_length)
  also have "\<dots> = length (filter (\<lambda>j. j = i) ?avoided)"
    by (simp add: filter_map comp_def g_ref_guide_row)
  also have "\<dots> = 1"
    by (rule length_filter_eq_one[OF d i])
  finally have one: "length (filter (\<lambda>row. g_ref row = i) (g_avoid res)) = 1" .
  show ?thesis by (intro conjI b ex aff one)
qed


theorem guide_avoid_dominates_witness:
  "guide lower_ascii example_catalog example_store example_query ''all'' = Inr example_guide_result
   \<and> flagging_edges ''avoid'' example_store gout (Ingredient 1) \<noteq> []
   \<and> flagging_edges ''benefit'' example_store anemia (Ingredient 1) \<noteq> []
   \<and> Ingredient 1 \<notin> g_ref ` set (g_beneficial example_guide_result)
   \<and> length (filter (\<lambda>row. g_ref row = Ingredient 1) (g_avoid example_guide_result)) = 1"
proof -
  have g: "guide lower_ascii example_catalog example_store example_query ''all'' =
      Inr example_guide_result"
    and a: "gout \<in> set (resolved_conditions lower_ascii example_catalog example_query)"
    and f: "flagging_edges ''avoid'' example_store gout (Ingredient 1) \<noteq> []"
    and b: "flagging_edges ''benefit'' example_store anemia (Ingredient 1) \<noteq> []"
    and i: "is_ingredient (Ingredient 1)"
    and n: "name_of example_catalog (Ingredient 1) \<noteq> None"
    by code_simp+
  from guide_avoid_dominates [OF g a f i n] g f b show ?thesis by simp
qed

end
